theory Spec2Isabelle
  imports Complex_Main "HOL-Library.Log_Nat"
begin

section \<open>Python values used by \<open>agenthub/world_model_agent/prompt.py\<close>\<close>

text \<open>
  Exceptions are values. \<open>ParseError\<close> carries its message; the other constructors are the
  built-in exceptions that the modelled statements can raise.
\<close>

datatype error = AssertionError | IndexError | OverflowError | ValueError | ParseError string

text \<open>
  Sequencing of fallible steps: the first exception wins, as it does when it propagates.
\<close>

definition err_bind :: "error + 'a \<Rightarrow> ('a \<Rightarrow> error + 'b) \<Rightarrow> error + 'b" where
  "err_bind r f = (case r of Inl e \<Rightarrow> Inl e | Inr x \<Rightarrow> f x)"

fun err_map :: "('a \<Rightarrow> error + 'b) \<Rightarrow> 'a list \<Rightarrow> error + 'b list" where
  "err_map f [] = Inr []"
| "err_map f (x # xs) =
     err_bind (f x) (\<lambda>y. err_bind (err_map f xs) (\<lambda>ys. Inr (y # ys)))"

subsection \<open>Text\<close>

text \<open>
  A Python \<open>str\<close> is a sequence of code points. The model reads a \<open>char\<close> as a code point
  below 256, so texts are \<open>string\<close>s over U+0000 .. U+00FF. Of the line boundaries of
  \<open>str.splitlines\<close> this leaves out only U+2028 and U+2029, which are not in that range.
\<close>

definition is_linebreak :: "char \<Rightarrow> bool" where
  "is_linebreak c \<longleftrightarrow>
     c \<in> {CHR 0x0A, CHR 0x0B, CHR 0x0C, CHR 0x0D, CHR 0x1C, CHR 0x1D, CHR 0x1E, CHR 0x85}"

text \<open>
  \<open>split_from cur s\<close> scans \<open>s\<close> with \<open>cur\<close> the line read so far. A carriage return followed
  by a line feed is one boundary. A last line without a boundary is kept when it is not
  empty, so \<open>''a\n''\<close> and \<open>''a''\<close> both give one line and the empty text gives none.
\<close>

fun split_from :: "string \<Rightarrow> string \<Rightarrow> string list" where
  "split_from cur [] = (if cur = [] then [] else [cur])"
| "split_from cur (c # cs) =
     (if c = CHR 0x0D then
        (case cs of
           [] \<Rightarrow> [cur]
         | d # ds \<Rightarrow> if d = CHR 0x0A then cur # split_from [] ds else cur # split_from [] (d # ds))
      else if is_linebreak c then cur # split_from [] cs
      else split_from (cur @ [c]) cs)"

definition splitlines :: "string \<Rightarrow> string list" where
  "splitlines s = split_from [] s"

text \<open>\<open>'\n'.join(xs)\<close>\<close>

fun join_nl :: "string list \<Rightarrow> string" where
  "join_nl [] = []"
| "join_nl [l] = l"
| "join_nl (l # m # ls) = l @ CHR 0x0A # join_nl (m # ls)"

text \<open>\<open>xs[:k]\<close> and \<open>xs[-n:]\<close> for a list \<open>xs\<close>; a negative stop counts from the end.\<close>

definition slice_to :: "'a list \<Rightarrow> int \<Rightarrow> 'a list" where
  "slice_to xs k = (if 0 \<le> k then take (nat k) xs else take (length xs - nat (- k)) xs)"

definition slice_last :: "nat \<Rightarrow> 'a list \<Rightarrow> 'a list" where
  "slice_last n xs = drop (length xs - n) xs"

text \<open>\<open>xs[i]\<close> for \<open>i \<ge> 0\<close> and \<open>xs[-1]\<close>: out of range raises \<open>IndexError\<close>.\<close>

definition py_index :: "'a list \<Rightarrow> nat \<Rightarrow> error + 'a" where
  "py_index xs i = (if i < length xs then Inr (xs ! i) else Inl IndexError)"

definition py_last :: "'a list \<Rightarrow> error + 'a" where
  "py_last xs = (if xs = [] then Inl IndexError else Inr (last xs))"

text \<open>The decimal text of an integer, as an f-string prints it.\<close>

definition digit_char :: "nat \<Rightarrow> char" where
  "digit_char d = ''0123456789'' ! (d mod 10)"

function str_of_nat :: "nat \<Rightarrow> string" where
  "str_of_nat n = (if n < 10 then [digit_char n] else str_of_nat (n div 10) @ [digit_char n])"
  by pat_completeness auto
termination
  by (relation "measure id") auto

declare str_of_nat.simps [simp del]

definition str_of_int :: "int \<Rightarrow> string" where
  "str_of_int i = (if i < 0 then CHR ''-'' # str_of_nat (nat (- i)) else str_of_nat (nat i))"

subsection \<open>Floating-point numbers\<close>

text \<open>
  A Python \<open>float\<close> is an IEEE 754 binary64 number. A finite one is modelled by its value,
  a rational; the two zeros are one value (the modelled statements never tell them apart).
\<close>

datatype pyfloat = Fin rat | PosInf | NegInf | NaN

text \<open>Rounding to the nearest integer, a tie to the even one.\<close>

definition round_half_even :: "rat \<Rightarrow> int" where
  "round_half_even x =
     (let f = \<lfloor>x\<rfloor>; d = x - of_int f
      in if d < 1 / 2 then f else if 1 / 2 < d then f + 1 else if even f then f else f + 1)"

text \<open>\<open>ilog2 x\<close> is the exponent \<open>e\<close> with \<open>2 powi e \<le> x < 2 powi (e + 1)\<close>, for \<open>0 < x\<close>.\<close>

definition ilog2 :: "rat \<Rightarrow> int" where
  "ilog2 x =
     (case quotient_of x of (a, b) \<Rightarrow>
        let e = bitlen a - bitlen b in if 2 powi e \<le> x then e else e - 1)"

text \<open>
  \<open>b64_round x\<close> is the binary64 number nearest to the exact value \<open>x\<close>, a tie going to the
  even significand: 53 significant bits, the spacing never below \<open>2 powi - 1074\<close>
  (subnormal numbers), and infinity once the rounded magnitude reaches \<open>2 ^ 1024\<close>.
\<close>

definition b64_round :: "rat \<Rightarrow> pyfloat" where
  "b64_round x =
     (if x = 0 then Fin 0
      else
        let e = max (ilog2 \<bar>x\<bar> - 52) (- 1074);
            m = round_half_even (\<bar>x\<bar> / 2 powi e);
            y = of_int m * 2 powi e
        in if 2 ^ 1024 \<le> y then (if x < 0 then NegInf else PosInf)
           else Fin (if x < 0 then - y else y))"

text \<open>
  An \<open>int\<close> operand of a float operation is converted first; the conversion raises
  \<open>OverflowError\<close> when the integer is too large for a float.
\<close>

definition float_of_nat :: "nat \<Rightarrow> error + pyfloat" where
  "float_of_nat n =
     (case b64_round (of_nat n) of Fin y \<Rightarrow> Inr (Fin y) | _ \<Rightarrow> Inl OverflowError)"

text \<open>\<open>1 - x\<close> for a float \<open>x\<close>.\<close>

definition one_minus :: "pyfloat \<Rightarrow> pyfloat" where
  "one_minus x =
     (case x of
        Fin a \<Rightarrow> b64_round (1 - a)
      | PosInf \<Rightarrow> NegInf
      | NegInf \<Rightarrow> PosInf
      | NaN \<Rightarrow> NaN)"

definition inf_of_sign :: "bool \<Rightarrow> pyfloat" where
  "inf_of_sign neg = (if neg then NegInf else PosInf)"

fun float_mul :: "pyfloat \<Rightarrow> pyfloat \<Rightarrow> pyfloat" where
  "float_mul (Fin a) (Fin b) = b64_round (a * b)"
| "float_mul NaN y = NaN"
| "float_mul x NaN = NaN"
| "float_mul (Fin a) PosInf = (if a = 0 then NaN else inf_of_sign (a < 0))"
| "float_mul (Fin a) NegInf = (if a = 0 then NaN else inf_of_sign (0 < a))"
| "float_mul PosInf (Fin b) = (if b = 0 then NaN else inf_of_sign (b < 0))"
| "float_mul NegInf (Fin b) = (if b = 0 then NaN else inf_of_sign (0 < b))"
| "float_mul PosInf PosInf = PosInf"
| "float_mul NegInf NegInf = PosInf"
| "float_mul PosInf NegInf = NegInf"
| "float_mul NegInf PosInf = NegInf"

text \<open>
  \<open>int(x)\<close> for a float \<open>x\<close> truncates towards zero; it raises \<open>OverflowError\<close> on an
  infinity and \<open>ValueError\<close> on a NaN.
\<close>

definition py_int :: "pyfloat \<Rightarrow> error + int" where
  "py_int x =
     (case x of
        Fin a \<Rightarrow> Inr (if 0 \<le> a then \<lfloor>a\<rfloor> else \<lceil>a\<rceil>)
      | NaN \<Rightarrow> Inl ValueError
      | _ \<Rightarrow> Inl OverflowError)"

section \<open>Prompt elements\<close>

text \<open>
  The constructor argument \<open>visible\<close> is stored as it is given: a bool, any other object
  (the error banner is given the error text) or a callable. \<open>is_visible\<close> calls a callable
  and the callers test the result for truth, so a text counts as visible when it is not
  empty. A callable reads a flag that may change between calls: \<open>'w\<close> is what it reads,
  passed in by each call.
\<close>

datatype 'w visible = VBool bool | VStr string | VCallable "'w \<Rightarrow> bool"

text \<open>
  The attributes \<open>_visible\<close>, \<open>_prompt\<close>, \<open>_abstract_ex\<close>, \<open>_concrete_ex\<close> of \<open>PromptElement\<close>
  (an identifier cannot start with an underscore here, hence \<open>u_\<close>).
\<close>

record 'w PromptElement =
  u_visible :: "'w visible"
  u_prompt :: string
  u_abstract_ex :: string
  u_concrete_ex :: string

definition PromptElement_init :: "'w visible \<Rightarrow> 'w PromptElement" where
  "PromptElement_init vis =
     \<lparr>u_visible = vis, u_prompt = [], u_abstract_ex = [], u_concrete_ex = []\<rparr>"

definition is_visible :: "'w \<Rightarrow> ('w, 'x) PromptElement_scheme \<Rightarrow> bool" where
  "is_visible w e =
     (case u_visible e of VBool b \<Rightarrow> b | VStr s \<Rightarrow> s \<noteq> [] | VCallable p \<Rightarrow> p w)"

definition hide :: "'w \<Rightarrow> ('w, 'x) PromptElement_scheme \<Rightarrow> string \<Rightarrow> string" where
  "hide w e v = (if is_visible w e then v else [])"

definition prompt :: "'w \<Rightarrow> ('w, 'x) PromptElement_scheme \<Rightarrow> string" where
  "prompt w e = hide w e (u_prompt e)"

definition abstract_ex :: "'w \<Rightarrow> ('w, 'x) PromptElement_scheme \<Rightarrow> string" where
  "abstract_ex w e = hide w e (u_abstract_ex e)"

definition concrete_ex :: "'w \<Rightarrow> ('w, 'x) PromptElement_scheme \<Rightarrow> string" where
  "concrete_ex w e = hide w e (u_concrete_ex e)"

section \<open>Truncating elements\<close>

text \<open>
  \<open>Trunkater\<close> adds four attributes to a prompt element. \<open>HTML\<close> and \<open>AXTree\<close> are the
  two truncating elements of the file; neither passes \<open>shrink_speed\<close>, so both get the
  default \<open>0.3\<close>, that is the binary64 number nearest to three tenths.
\<close>

record 'w Trunkater = "'w PromptElement" +
  shrink_speed :: pyfloat
  start_trunkate_iteration :: int
  shrink_calls :: int
  deleted_lines :: int

definition default_shrink_speed :: pyfloat where
  "default_shrink_speed = Fin (5404319552844595 / 2 ^ 54)"

definition Trunkater_init :: "'w visible \<Rightarrow> pyfloat \<Rightarrow> int \<Rightarrow> 'w Trunkater" where
  "Trunkater_init vis speed start =
     \<lparr>u_visible = vis, u_prompt = [], u_abstract_ex = [], u_concrete_ex = [],
      shrink_speed = speed, start_trunkate_iteration = start,
      shrink_calls = 0, deleted_lines = 0\<rparr>"

text \<open>\<open>int(len(lines) * (1 - self.shrink_speed))\<close>, for \<open>n\<close> lines.\<close>

definition new_line_count :: "nat \<Rightarrow> pyfloat \<Rightarrow> error + int" where
  "new_line_count n speed =
     err_bind (float_of_nat n) (\<lambda>fn. py_int (float_mul fn (one_minus speed)))"

text \<open>The line that reports the deletions, and the text appended to the prompt.\<close>

definition marker_line :: "int \<Rightarrow> string" where
  "marker_line d = ''... Deleted '' @ str_of_int d @ '' lines to reduce prompt size.''"

definition deleted_marker :: "int \<Rightarrow> string" where
  "deleted_marker d = CHR 0x0A # marker_line d"

text \<open>
  \<open>shrink\<close> returns the element after the call. An exception of the line count leaves the
  element as it was: nothing is assigned before it.
\<close>

definition shrink ::
  "'w \<Rightarrow> ('w, 'x) Trunkater_scheme \<Rightarrow> error + ('w, 'x) Trunkater_scheme" where
  "shrink w t =
     err_bind
       (if is_visible w t \<and> start_trunkate_iteration t \<le> shrink_calls t then
          (let lines = splitlines (u_prompt t)
           in err_bind (new_line_count (length lines) (shrink_speed t))
                (\<lambda>count.
                   let deleted = deleted_lines t + (int (length lines) - count)
                   in Inr (t\<lparr>deleted_lines := deleted,
                             u_prompt := join_nl (slice_to lines count) @ deleted_marker deleted\<rparr>)))
        else Inr t)
       (\<lambda>t1. Inr (t1\<lparr>shrink_calls := shrink_calls t1 + 1\<rparr>))"

text \<open>
  A run of shrink calls, one for each element of \<open>ws\<close>: what the visibility callable reads
  at the time of each call. The run stops at the first exception.
\<close>

fun shrink_run ::
  "'w list \<Rightarrow> ('w, 'x) Trunkater_scheme \<Rightarrow> error + ('w, 'x) Trunkater_scheme" where
  "shrink_run [] t = Inr t"
| "shrink_run (w # ws) t = err_bind (shrink w t) (shrink_run ws)"

definition HTML_init :: "string \<Rightarrow> 'w visible \<Rightarrow> string \<Rightarrow> 'w Trunkater" where
  "HTML_init html vis prefix =
     (Trunkater_init vis default_shrink_speed 5)
       \<lparr>u_prompt := CHR 0x0A # prefix @ ''HTML:'' @ CHR 0x0A # html @ [CHR 0x0A]\<rparr>"

text \<open>
  \<open>coord_type\<close> is compared with the texts \<open>'center'\<close> and \<open>'box'\<close>; \<open>None\<close> stands for an
  argument that is no text (the default \<open>None\<close>, or the \<open>False\<close> that \<open>get_obs\<close> passes).
\<close>

definition coord_note :: "string option \<Rightarrow> string" where
  "coord_note coord_type =
     (if coord_type = Some ''center'' then
        ''Note: center coordinates are provided in parenthesis and are'' @ CHR 0x0A #
        ''  relative to the top left corner of the page.'' @ [CHR 0x0A, CHR 0x0A]
      else if coord_type = Some ''box'' then
        ''Note: bounding box of each object are provided in parenthesis and are'' @ CHR 0x0A #
        ''  relative to the top left corner of the page.'' @ [CHR 0x0A, CHR 0x0A]
      else [])"

definition AXTree_init ::
  "string \<Rightarrow> 'w visible \<Rightarrow> string option \<Rightarrow> string \<Rightarrow> 'w Trunkater" where
  "AXTree_init ax_tree vis coord_type prefix =
     (Trunkater_init vis default_shrink_speed 10)
       \<lparr>u_prompt :=
          CHR 0x0A # prefix @ ''AXTree (you may only interact with elements in this tree):'' @
          CHR 0x0A # coord_note coord_type @ ax_tree @ [CHR 0x0A]\<rparr>"

definition Error_init :: "string \<Rightarrow> 'w visible \<Rightarrow> string \<Rightarrow> 'w PromptElement" where
  "Error_init err vis prefix =
     (PromptElement_init vis)
       \<lparr>u_prompt := CHR 0x0A # prefix @ ''Error from previous action:'' @ CHR 0x0A # err @ [CHR 0x0A]\<rparr>"

section \<open>The main prompt\<close>

text \<open>
  An observation is a mapping; the prompt reads its keys \<open>axtree_txt\<close> and
  \<open>last_action_error\<close> (the empty text when the last action raised no error). States,
  strategies and actions are texts. No element built here has a callable visibility, so
  the elements are rendered with nothing to read, \<open>()\<close>.
\<close>

record observation =
  axtree_txt :: string
  last_action_error :: string

definition get_obs :: "observation \<Rightarrow> string" where
  "get_obs ob =
     (let ax_tree = AXTree_init (axtree_txt ob) (VBool True) None ''## '' :: unit Trunkater;
          error = Error_init (last_action_error ob) (VStr (last_action_error ob)) ''## ''
            :: unit PromptElement
      in ''\<newline># Observation of current step:\<newline>AXSTART'' @ prompt () ax_tree @
         ''AXEND'' @ prompt () error @ ''\<newline>\<newline>'')"

definition get_obs_state :: "observation \<Rightarrow> string \<Rightarrow> string" where
  "get_obs_state ob state = get_obs ob @ ''\<newline>## Current State:\<newline>'' @ state @ ''\<newline>''"

text \<open>\<open>active_strategy\<close> defaults to \<open>None\<close>, which an f-string prints as \<open>None\<close>.\<close>

definition str_of_optional :: "string option \<Rightarrow> string" where
  "str_of_optional v = (case v of None \<Rightarrow> ''None'' | Some s \<Rightarrow> s)"

definition get_obs_state_strat :: "observation \<Rightarrow> string \<Rightarrow> string option \<Rightarrow> string" where
  "get_obs_state_strat ob state strategy =
     get_obs_state ob state @
     ''\<newline>## Current Strategy:\<newline>'' @ str_of_optional strategy @ ''\<newline>''"

definition get_state :: "string \<Rightarrow> string" where
  "get_state state = ''\<newline>## Current State:\<newline>'' @ state @ ''\<newline>\<newline>''"

definition get_state_strat :: "string \<Rightarrow> string \<Rightarrow> string" where
  "get_state_strat state strategy =
     get_state state @ ''\<newline>## Current Strategy:\<newline>'' @ strategy @ ''\<newline>''"

definition get_history_step ::
  "observation option \<Rightarrow> string \<Rightarrow> string option \<Rightarrow> string option \<Rightarrow> string" where
  "get_history_step current_obs state strategy action =
     (case current_obs of
        Some ob \<Rightarrow>
          (let ax_tree = AXTree_init (axtree_txt ob) (VBool True) None
                 ''\<newline>#### Accessibility tree:\<newline>'' :: unit Trunkater;
               error = Error_init (last_action_error ob) (VStr (last_action_error ob)) ''#### ''
                 :: unit PromptElement
           in ''\<newline>### Observation:\<newline>'' @ prompt () error @ prompt () ax_tree @
              ''\<newline>\<newline>'')
      | None \<Rightarrow> ''\<newline>### State:\<newline>'' @ state @ ''\<newline>'') @
     (case strategy of
        Some g \<Rightarrow> ''\<newline>### Strategy:\<newline>'' @ g @ ''\<newline>''
      | None \<Rightarrow> []) @
     (case action of
        Some a \<Rightarrow> ''\<newline>### Action:\<newline>'' @ a @ ''\<newline>''
      | None \<Rightarrow> [])"

text \<open>
  \<open>get_history\<close>: the assertion on the lengths, the loop over \<open>range(1, len(states))\<close> that
  builds one step from the entries at \<open>i - 1\<close>, and the numbered steps joined under the
  header. The argument \<open>obs_history\<close> is not read.
\<close>

definition history_step_at ::
  "string list \<Rightarrow> string list \<Rightarrow> string list \<Rightarrow> nat \<Rightarrow> error + string" where
  "history_step_at states strategies actions i =
     err_bind (py_index states (i - 1)) (\<lambda>state.
     err_bind (py_index strategies (i - 1)) (\<lambda>strategy.
     err_bind (if i \<le> length actions
               then err_bind (py_index actions (i - 1)) (\<lambda>a. Inr (Some a))
               else Inr None) (\<lambda>action.
     Inr (get_history_step None state (Some strategy) action))))"

definition history_text :: "string list \<Rightarrow> string" where
  "history_text history_steps =
     join_nl (''\<newline># History of interaction with the task:\<newline>'' #
              concat (map (\<lambda>(i, step). [''## Step '' @ str_of_nat i, step])
                        (enumerate 0 history_steps))) @ ''\<newline>''"

definition get_history ::
  "observation list \<Rightarrow> string list \<Rightarrow> string list \<Rightarrow> string list \<Rightarrow> error + string" where
  "get_history obs_history states strategies actions =
     (if \<not> (length states = length strategies \<or> length states = length strategies + 1)
      then Inl AssertionError
      else err_bind (err_map (history_step_at states strategies actions) [1..<length states])
             (\<lambda>history_steps. Inr (history_text history_steps)))"

text \<open>
  The step that the loop of \<open>get_history\<close> builds at index \<open>i\<close> when the entries at
  \<open>i - 1\<close> exist; the lemmas below show that they do once the assertion has passed.
\<close>

definition history_step_of :: "string list \<Rightarrow> string list \<Rightarrow> string list \<Rightarrow> nat \<Rightarrow> string" where
  "history_step_of sts strs acts i =
     get_history_step None (sts ! (i - 1)) (Some (strs ! (i - 1)))
       (if i \<le> length acts then Some (acts ! (i - 1)) else None)"

text \<open>
  The action space is an object of another package; of it the prompt calls
  \<open>to_python_code\<close>, which returns code or raises: \<open>Inl\<close> is the message of the exception.
\<close>

type_synonym action_set = "string \<Rightarrow> string + string"

text \<open>
  The attributes of \<open>MyMainPrompt\<close> that the constructor sets from its arguments, the
  history block and the current-step text. \<open>obs\<close> is \<open>None\<close> as long as the attribute has
  not been assigned.
\<close>

record MyMainPrompt =
  obs_history :: "observation list"
  states :: "string list"
  strategies :: "string list"
  actions :: "string list"
  active_strategy :: "string option"
  action_space :: "action_set option"
  history :: string
  obs :: "string option"

definition MyMainPrompt_init ::
  "observation list \<Rightarrow> string list \<Rightarrow> string list \<Rightarrow> string list \<Rightarrow>
   string option \<Rightarrow> action_set option \<Rightarrow> error + MyMainPrompt" where
  "MyMainPrompt_init obs_history0 states0 strategies0 actions0 active_strategy0 action_space0 =
     err_bind (get_history obs_history0 states0 strategies0 actions0) (\<lambda>history0.
       let self = \<lparr>obs_history = obs_history0, states = states0, strategies = strategies0,
                   actions = actions0, active_strategy = active_strategy0,
                   action_space = action_space0, history = history0, obs = None\<rparr>
       in
       if length obs_history0 = length states0 + 1 \<and> length states0 = length strategies0 then
         err_bind (py_last obs_history0) (\<lambda>ob.
         err_bind (get_history obs_history0 (slice_last 3 states0) (slice_last 3 strategies0)
                     (slice_last 3 actions0)) (\<lambda>history1.
         Inr (self\<lparr>obs := Some (get_obs ob), history := history1\<rparr>)))
       else if length obs_history0 = length states0
            \<and> length states0 = length strategies0 + 1
            \<and> length strategies0 = length actions0 then
         err_bind (py_last obs_history0) (\<lambda>ob.
         err_bind (py_last states0) (\<lambda>state.
         Inr (self\<lparr>obs := Some (get_obs_state ob state)\<rparr>)))
       else if length obs_history0 = length states0
            \<and> length states0 = length strategies0
            \<and> length strategies0 = length actions0 + 1 then
         err_bind (py_last obs_history0) (\<lambda>ob.
         err_bind (py_last states0) (\<lambda>state.
         Inr (self\<lparr>obs := Some (get_obs_state_strat ob state active_strategy0)\<rparr>)))
       else if length obs_history0 \<le> length states0
            \<and> length states0 = length strategies0
            \<and> length actions0 + 1 \<le> length strategies0 then
         err_bind (py_last states0) (\<lambda>state.
         err_bind (py_last strategies0) (\<lambda>strategy.
         Inr (self\<lparr>obs := Some (get_state_strat state strategy)\<rparr>)))
       else if length obs_history0 < length states0
            \<and> length states0 = length strategies0 + 1 then
         err_bind (py_last states0) (\<lambda>state.
         Inr (self\<lparr>obs := Some (get_state state)\<rparr>))
       else Inr self)"

text \<open>
  The five conditions of the constructor on the lengths \<open>O\<close>, \<open>S\<close>, \<open>T\<close>, \<open>A\<close> of the
  observations, states, strategies and actions, in the order of its branches.
\<close>

definition mode_conditions :: "nat \<Rightarrow> nat \<Rightarrow> nat \<Rightarrow> nat \<Rightarrow> bool list" where
  "mode_conditions O' S T A =
     [O' = S + 1 \<and> S = T,
      O' = S \<and> S = T + 1 \<and> T = A,
      O' = S \<and> S = T \<and> T = A + 1,
      O' \<le> S \<and> S = T \<and> A + 1 \<le> T,
      O' < S \<and> S = T + 1]"

section \<open>Parsing the answer\<close>

text \<open>
  \<open>parse_html_tags_raise\<close> is imported from the module \<open>utils\<close>: the parsers take it as an
  argument, called with the text, the keys, the optional keys and \<open>merge_multiple\<close>. It
  returns the mapping from tag to text or raises.
\<close>

type_synonym tag_parser =
  "string \<Rightarrow> string list \<Rightarrow> string list \<Rightarrow> bool \<Rightarrow> error + (string \<rightharpoonup> string)"

definition action_error_message :: "string \<Rightarrow> string" where
  "action_error_message e =
     ''Error while parsing action\<newline>: '' @ e @
     ''\<newline>Make sure your answer is restricted to the allowed actions.''"

text \<open>
  The \<open>try\<close> block catches every exception of the call
  \<open>self.action_space.to_python_code(ans_dict['action'])\<close>: the \<open>AttributeError\<close> when the
  action space is \<open>None\<close>, the \<open>KeyError\<close> when the mapping has no action, and whatever
  \<open>to_python_code\<close> raises.
\<close>

definition MyActionSpace_parse_answer ::
  "tag_parser \<Rightarrow> action_set \<Rightarrow> string \<Rightarrow> error + (string \<rightharpoonup> string)" where
  "MyActionSpace_parse_answer parse_html_tags_raise to_python_code text_answer =
     err_bind (parse_html_tags_raise text_answer [''action''] [] True) (\<lambda>ans_dict.
       case (case ans_dict ''action'' of
               None \<Rightarrow> Inl (CHR 0x27 # ''action'' @ [CHR 0x27])
             | Some a \<Rightarrow> to_python_code a) of
         Inl e \<Rightarrow> Inl (ParseError (action_error_message e))
       | Inr code \<Rightarrow> Inr ans_dict)"

definition parse_effectuator_answer ::
  "tag_parser \<Rightarrow> MyMainPrompt \<Rightarrow> string \<Rightarrow> error + (string \<rightharpoonup> string)" where
  "parse_effectuator_answer parse_html_tags_raise self text_answer =
     err_bind (parse_html_tags_raise text_answer [''action'', ''explanation''] [] True)
       (\<lambda>ans_dict.
          case (case action_space self of
                  None \<Rightarrow>
                    Inl (CHR 0x27 # ''NoneType'' @ CHR 0x27 # '' object has no attribute '' @
                         CHR 0x27 # ''to_python_code'' @ [CHR 0x27])
                | Some to_python_code \<Rightarrow>
                    (case ans_dict ''action'' of
                       None \<Rightarrow> Inl (CHR 0x27 # ''action'' @ [CHR 0x27])
                     | Some a \<Rightarrow> to_python_code a)) of
            Inl e \<Rightarrow> Inl (ParseError (action_error_message e))
          | Inr code \<Rightarrow> Inr ans_dict)"

section \<open>Texts and their lines\<close>

definition no_break :: "string \<Rightarrow> bool" where
  "no_break l \<longleftrightarrow> (\<forall>c\<in>set l. \<not> is_linebreak c)"

section \<open>Example elements\<close>

text \<open>
  Concrete elements for the instances below: a bare truncating element with the default
  threshold 10, the same with a one-line text, the HTML element of a three-line page after
  five shrink calls, an accessibility tree whose visibility is a callable reading a flag,
  and a visible accessibility tree after ten shrink calls.
\<close>

definition empty_example :: "unit Trunkater" where
  "empty_example = Trunkater_init (VBool True) default_shrink_speed 10"

definition one_line_example :: "unit Trunkater" where
  "one_line_example = (Trunkater_init (VBool True) default_shrink_speed 10)\<lparr>u_prompt := ''abc''\<rparr>"

definition html_example :: "unit Trunkater" where
  "html_example = (HTML_init ''a\<newline>b\<newline>c'' (VBool True) [])\<lparr>shrink_calls := 5\<rparr>"

definition flag_example :: "bool Trunkater" where
  "flag_example = AXTree_init ''[1] Click me'' (VCallable (\<lambda>flag. flag)) None []"

definition axtree_example :: "unit Trunkater" where
  "axtree_example = (AXTree_init ''[1] Click me'' (VBool True) None [])\<lparr>shrink_calls := 10\<rparr>"

text \<open>
  Two observations, a parser of two fixed replies (it returns the requested tags of the
  reply) and an action space that compiles the \<open>click\<close> actions only.
\<close>

definition obs_old :: observation where
  "obs_old = \<lparr>axtree_txt = ''[1] Old'', last_action_error = []\<rparr>"

definition obs_new :: observation where
  "obs_new = \<lparr>axtree_txt = ''[2] Click me'', last_action_error = ''Timeout''\<rparr>"

definition example_tags :: tag_parser where
  "example_tags text keys optional_keys merge_multiple =
     (if text = ''<action>click('41')</action><explanation>open the menu</explanation>''
      then Inr ([''action'' \<mapsto> ''click('41')'', ''explanation'' \<mapsto> ''open the menu'']
                  |` set (keys @ optional_keys))
      else if text = ''<action>fly()</action><explanation>leave</explanation>''
      then Inr ([''action'' \<mapsto> ''fly()'', ''explanation'' \<mapsto> ''leave'']
                  |` set (keys @ optional_keys))
      else Inl (ParseError ''Missing the key <action> in the answer.''))"

definition example_actions :: action_set where
  "example_actions a =
     (if take 6 a = ''click('' then Inr (''page.'' @ a) else Inl ''Invalid action type'')"

definition example_prompt :: MyMainPrompt where
  "example_prompt =
     \<lparr>obs_history = [], states = [], strategies = [], actions = [], active_strategy = None,
      action_space = Some example_actions, history = [], obs = None\<rparr>"

section \<open>Rounding to binary64\<close>

text \<open>
  Bounds on \<open>b64_round\<close>: a value below a representable bound rounds to a number that
  is not above it, small natural numbers are exact, and a value a relative \<open>2 powi - 53\<close>
  below an integer rounds to a number strictly below that integer.
\<close>

lemma round_half_even_le: "x \<le> of_int j \<Longrightarrow> round_half_even x \<le> j"
  unfolding round_half_even_def Let_def
  by (auto simp: floor_le_iff le_floor_iff)

lemma round_half_even_nonneg: "0 \<le> x \<Longrightarrow> 0 \<le> round_half_even x"
  unfolding round_half_even_def Let_def by auto

lemma round_half_even_of_int: "round_half_even (of_int j) = j"
  unfolding round_half_even_def Let_def by simp

lemma round_half_even_less: "x < of_int j - 1 / 2 \<Longrightarrow> round_half_even x < j"
  unfolding round_half_even_def Let_def
  by (auto simp: floor_less_iff)

lemma round_half_even_near:
  assumes "of_int m - 1 / 2 < x" "x < of_int m + 1 / 2"
  shows "round_half_even x = m"
proof (cases "of_int m \<le> x")
  case True
  then have "\<lfloor>x\<rfloor> = m"
    using assms(2) by (simp add: floor_eq_iff)
  then show ?thesis
    using assms(2) by (simp add: round_half_even_def)
next
  case False
  then have "\<lfloor>x\<rfloor> = m - 1"
    using assms(1) by (simp add: floor_eq_iff)
  then show ?thesis
    using assms(1) by (simp add: round_half_even_def)
qed

lemma round_half_even_tie:
  assumes "x = of_int m + 1 / 2"
  shows "round_half_even x = (if even m then m else m + 1)"
proof -
  have "\<lfloor>x\<rfloor> = m"
    using assms by (simp add: floor_eq_iff)
  then show ?thesis
    using assms by (simp add: round_half_even_def)
qed

lemma ilog2_le:
  assumes "0 < x"
  shows "2 powi (ilog2 x) \<le> x"
proof -
  obtain a b where q: "quotient_of x = (a, b)"
    by (cases "quotient_of x")
  have b: "0 < b"
    using quotient_of_denom_pos [OF q] .
  have x: "x = of_int a / of_int b"
    using quotient_of_div [OF q] .
  have a: "0 < a"
    using assms b x by (simp add: zero_less_divide_iff)
  let ?e = "bitlen a - bitlen b"
  show ?thesis
  proof (cases "2 powi ?e \<le> x")
    case True
    then show ?thesis by (simp add: ilog2_def q)
  next
    case False
    have la: "1 \<le> bitlen a" and lb: "1 \<le> bitlen b"
      using a b by (auto simp: bitlen_alt_def)
    have ba: "(2::int) ^ nat (bitlen a - 1) \<le> a"
      using bitlen_bounds [OF a] by simp
    have bb: "b < (2::int) ^ nat (bitlen b)"
      using bitlen_bounds [OF b] by simp
    have "(of_int ((2::int) ^ nat (bitlen a - 1)) :: rat) \<le> of_int a"
      using ba by (simp only: of_int_le_iff)
    then have ra: "(2::rat) powi (bitlen a - 1) \<le> of_int a"
      using la by (simp add: power_int_nonneg_exp)
    have "(of_int b :: rat) < of_int ((2::int) ^ nat (bitlen b))"
      using bb by (simp only: of_int_less_iff)
    then have rb: "of_int b < (2::rat) powi (bitlen b)"
      using lb by (simp add: power_int_nonneg_exp)
    have "(2::rat) powi (?e - 1) = 2 powi (bitlen a - 1) / 2 powi (bitlen b)"
      by (simp add: power_int_diff)
    also have "\<dots> \<le> of_int a / 2 powi (bitlen b)"
      using ra by (simp add: divide_right_mono)
    also have "\<dots> \<le> of_int a / of_int b"
      using rb a b by (simp add: frac_le)
    also have "\<dots> = x"
      using x by simp
    finally have "(2::rat) powi (?e - 1) \<le> x" .
    moreover have "ilog2 x = ?e - 1"
      using False by (simp add: ilog2_def q)
    ultimately show ?thesis
      by simp
  qed
qed

lemma ilog2_less:
  assumes "0 < x"
  shows "x < 2 powi (ilog2 x + 1)"
proof -
  obtain a b where q: "quotient_of x = (a, b)"
    by (cases "quotient_of x")
  have b: "0 < b"
    using quotient_of_denom_pos [OF q] .
  have x: "x = of_int a / of_int b"
    using quotient_of_div [OF q] .
  have a: "0 < a"
    using assms b x by (simp add: zero_less_divide_iff)
  let ?e = "bitlen a - bitlen b"
  show ?thesis
  proof (cases "2 powi ?e \<le> x")
    case False
    then have "ilog2 x = ?e - 1"
      by (simp add: ilog2_def q)
    then show ?thesis
      using False by simp
  next
    case True
    have la: "1 \<le> bitlen a" and lb: "1 \<le> bitlen b"
      using a b by (auto simp: bitlen_alt_def)
    have ba: "a < (2::int) ^ nat (bitlen a)"
      using bitlen_bounds [OF a] by simp
    have bb: "(2::int) ^ nat (bitlen b - 1) \<le> b"
      using bitlen_bounds [OF b] by simp
    have "(of_int a :: rat) < of_int ((2::int) ^ nat (bitlen a))"
      using ba by (simp only: of_int_less_iff)
    then have ra: "of_int a < (2::rat) powi (bitlen a)"
      using la by (simp add: power_int_nonneg_exp)
    have "(of_int ((2::int) ^ nat (bitlen b - 1)) :: rat) \<le> of_int b"
      using bb by (simp only: of_int_le_iff)
    then have rb: "(2::rat) powi (bitlen b - 1) \<le> of_int b"
      using lb by (simp add: power_int_nonneg_exp)
    have "x = of_int a / of_int b"
      by (rule x)
    also have "\<dots> < 2 powi (bitlen a) / of_int b"
      using ra b by (simp add: divide_strict_right_mono)
    also have "\<dots> \<le> 2 powi (bitlen a) / 2 powi (bitlen b - 1)"
      using rb b by (intro divide_left_mono mult_pos_pos) simp_all
    also have "\<dots> = 2 powi (?e + 1)"
      by (simp add: power_int_diff [symmetric] algebra_simps)
    finally have "x < 2 powi (?e + 1)" .
    moreover have "ilog2 x = ?e"
      using True by (simp add: ilog2_def q)
    ultimately show ?thesis
      by simp
  qed
qed

lemma ilog2_eq:
  assumes "0 < x" "2 powi e \<le> x" "x < 2 powi (e + 1)"
  shows "ilog2 x = e"
proof -
  have "(2::rat) powi (ilog2 x) < 2 powi (e + 1)"
    using ilog2_le [OF assms(1)] assms(3) by simp
  then have "ilog2 x < e + 1"
    by (metis power_int_increasing not_less one_le_numeral)
  moreover have "(2::rat) powi e < 2 powi (ilog2 x + 1)"
    using ilog2_less [OF assms(1)] assms(2) by simp
  then have "e < ilog2 x + 1"
    by (metis power_int_increasing not_less one_le_numeral)
  ultimately show ?thesis
    by simp
qed

lemma b64_exp_le:
  assumes "0 < x" "x < 2 powi (k + 53)" "- 1074 \<le> k"
  shows "max (ilog2 x - 52) (- 1074) \<le> k"
proof -
  have "(2::rat) powi (ilog2 x) < 2 powi (k + 53)"
    using ilog2_le [OF assms(1)] assms(2) by simp
  then have "ilog2 x < k + 53"
    by (metis power_int_increasing not_less one_le_numeral)
  then show ?thesis
    using assms(3) by simp
qed

lemma b64_round_pos:
  assumes "0 < x"
  shows "b64_round x =
    (let e = max (ilog2 x - 52) (- 1074);
         y = of_int (round_half_even (x / 2 powi e)) * 2 powi e
     in if 2 ^ 1024 \<le> y then PosInf else Fin y)"
  using assms by (simp add: b64_round_def Let_def)

lemma b64_round_le:
  assumes "0 \<le> x" "x \<le> of_int j * 2 powi k" "x < 2 powi (k + 53)" "- 1074 \<le> k"
    and "of_int j * (2::rat) powi k < 2 ^ 1024"
  shows "\<exists>y. b64_round x = Fin y \<and> 0 \<le> y \<and> y \<le> of_int j * 2 powi k"
proof (cases "x = 0")
  case True
  then show ?thesis
    using assms(2) by (simp add: b64_round_def)
next
  case False
  then have pos: "0 < x"
    using assms(1) by simp
  define e where "e = max (ilog2 x - 52) (- 1074)"
  define m where "m = round_half_even (x / 2 powi e)"
  have ek: "e \<le> k"
    unfolding e_def using b64_exp_le [OF pos assms(3) assms(4)] .
  have split: "(2::rat) powi k = of_int (2 ^ nat (k - e)) * 2 powi e"
    using ek by (simp add: power_int_nonneg_exp [symmetric] power_int_add [symmetric])
  have "x / 2 powi e \<le> of_int j * 2 powi k / 2 powi e"
    using assms(2) by (simp add: divide_right_mono)
  also have "\<dots> = of_int (j * 2 ^ nat (k - e))"
    by (simp add: split)
  finally have "m \<le> j * 2 ^ nat (k - e)"
    unfolding m_def by (rule round_half_even_le)
  then have "(of_int m :: rat) \<le> of_int (j * 2 ^ nat (k - e))"
    by (simp only: of_int_le_iff)
  then have "of_int m * (2::rat) powi e \<le> of_int (j * 2 ^ nat (k - e)) * 2 powi e"
    by (simp add: mult_right_mono)
  also have "\<dots> = of_int j * 2 powi k"
    by (simp add: split)
  finally have up: "of_int m * (2::rat) powi e \<le> of_int j * 2 powi k" .
  have "0 \<le> m"
    unfolding m_def using pos by (intro round_half_even_nonneg) simp
  then have lo: "0 \<le> of_int m * (2::rat) powi e"
    by simp
  have "b64_round x = Fin (of_int m * 2 powi e)"
    using up assms(5) by (simp add: b64_round_pos [OF pos] Let_def e_def [symmetric] m_def [symmetric])
  then show ?thesis
    using up lo by simp
qed

lemma divide_powi_nonpos:
  assumes "e \<le> 0"
  shows "z / (2::rat) powi e = z * of_int (2 ^ nat (- e))"
proof -
  have "(2::rat) ^ nat (- e) = 2 powi (- e)"
    using assms by (simp add: power_int_nonneg_exp)
  also have "\<dots> = 1 / 2 powi e"
    by (rule power_int_minus_divide)
  finally show ?thesis
    by simp
qed

lemma times_powi_nonpos:
  assumes "e \<le> 0"
  shows "of_int (j * 2 ^ nat (- e)) * (2::rat) powi e = of_int j"
proof -
  have "(2::rat) ^ nat (- e) = 2 powi (- e)"
    using assms by (simp add: power_int_nonneg_exp)
  then have "(2::rat) ^ nat (- e) * 2 powi e = 1"
    by (simp add: power_int_add [symmetric])
  then show ?thesis
    by (simp add: mult.assoc)
qed

lemma b64_round_of_nat:
  assumes "n < 2 ^ 53"
  shows "b64_round (of_nat n) = Fin (of_nat n)"
proof (cases "n = 0")
  case True
  then show ?thesis by (simp add: b64_round_def)
next
  case False
  define x :: rat where "x = of_nat n"
  have pos: "0 < x"
    using False by (simp add: x_def)
  have "x < 2 ^ 53"
    using assms unfolding x_def by (metis of_nat_less_iff of_nat_numeral of_nat_power)
  then have lt: "x < 2 powi (0 + 53)"
    by simp
  define e where "e = max (ilog2 x - 52) (- 1074)"
  have e0: "e \<le> 0"
    unfolding e_def using b64_exp_le [OF pos lt] by simp
  have quot: "x / 2 powi e = of_int (int n * 2 ^ nat (- e))"
    by (simp add: divide_powi_nonpos [OF e0] x_def)
  have "of_int (round_half_even (x / 2 powi e)) * (2::rat) powi e = of_int (int n * 2 ^ nat (- e)) * 2 powi e"
    unfolding quot round_half_even_of_int ..
  also have "\<dots> = x"
    by (simp only: times_powi_nonpos [OF e0] x_def of_int_of_nat_eq)
  finally have y: "of_int (round_half_even (x / 2 powi e)) * (2::rat) powi e = x" .
  have "x < 2 ^ 1024"
    using \<open>x < 2 ^ 53\<close> by (rule less_trans) simp
  then show ?thesis
    using y by (simp add: b64_round_pos [OF pos] Let_def e_def [symmetric] x_def [symmetric])
qed

lemma b64_round_less:
  assumes "0 \<le> x" "x \<le> of_int j * (1 - 2 powi (- 53))" "0 < j" "j < 2 ^ 53"
  shows "\<exists>y. b64_round x = Fin y \<and> 0 \<le> y \<and> y < of_int j"
proof (cases "x = 0")
  case True
  then show ?thesis
    using assms(3) by (simp add: b64_round_def)
next
  case False
  then have pos: "0 < x"
    using assms(1) by simp
  have jr: "(0::rat) < of_int j"
    using assms(3) by simp
  have gap: "of_int j * (2::rat) powi (- 53) \<le> of_int j - x"
    using assms(2) by (simp add: algebra_simps)
  have "(0::rat) < of_int j * 2 powi (- 53)"
    using jr by simp
  then have xj: "x < of_int j"
    using gap by linarith
  have "(of_int j :: rat) < of_int (2 ^ 53)"
    using assms(4) by (simp only: of_int_less_iff)
  then have j53: "(of_int j :: rat) < 2 ^ 53"
    by simp
  then have lt: "x < 2 powi (0 + 53)"
    using xj by simp
  define e where "e = max (ilog2 x - 52) (- 1074)"
  define m where "m = round_half_even (x / 2 powi e)"
  have e0: "e \<le> 0"
    unfolding e_def using b64_exp_le [OF pos lt] by simp
  have half: "(2::rat) powi e / 2 < of_int j - x"
  proof (cases "ilog2 x - 52 \<le> - 1074")
    case True
    then have "e = - 1074"
      by (simp add: e_def)
    then have "(2::rat) powi e / 2 < 2 powi (- 53)"
      by simp
    also have "\<dots> \<le> of_int j * 2 powi (- 53)"
      using assms(3) by simp
    finally show ?thesis
      using gap by simp
  next
    case False
    then have "e = ilog2 x - 52"
      by (simp add: e_def)
    then have "(2::rat) powi e / 2 = 2 powi (ilog2 x) * 2 powi (- 53)"
      by (simp add: power_int_diff)
    also have "\<dots> \<le> x * 2 powi (- 53)"
      using ilog2_le [OF pos] by (simp add: mult_right_mono)
    also have "\<dots> < of_int j * 2 powi (- 53)"
      using xj by simp
    finally show ?thesis
      using gap by simp
  qed
  have "x / 2 powi e < (of_int j - 2 powi e / 2) / 2 powi e"
    using half by (simp add: divide_strict_right_mono)
  also have "\<dots> = of_int j / 2 powi e - 1 / 2"
    by (simp add: diff_divide_distrib)
  also have "of_int j / (2::rat) powi e = of_int (j * 2 ^ nat (- e))"
    by (simp add: divide_powi_nonpos [OF e0])
  finally have "m < j * 2 ^ nat (- e)"
    unfolding m_def by (rule round_half_even_less)
  then have "(of_int m :: rat) < of_int (j * 2 ^ nat (- e))"
    by (simp only: of_int_less_iff)
  then have "of_int m * (2::rat) powi e < of_int (j * 2 ^ nat (- e)) * 2 powi e"
    by (simp add: mult_strict_right_mono)
  also have "\<dots> = of_int j"
    by (rule times_powi_nonpos [OF e0])
  finally have up: "of_int m * (2::rat) powi e < of_int j" .
  have "0 \<le> m"
    unfolding m_def using pos by (intro round_half_even_nonneg) simp
  then have lo: "0 \<le> of_int m * (2::rat) powi e"
    by simp
  have "(2::rat) ^ 53 < 2 ^ 1024"
    by simp
  then have "of_int m * (2::rat) powi e < 2 ^ 1024"
    using up j53 by linarith
  then have "b64_round x = Fin (of_int m * 2 powi e)"
    by (simp add: b64_round_pos [OF pos] Let_def e_def [symmetric] m_def [symmetric])
  then show ?thesis
    using up lo by simp
qed

lemma b64_round_eval:
  assumes "0 < x" "2 powi e \<le> x" "x < 2 powi (e + 1)"
    and "round_half_even (x / 2 powi (max (e - 52) (- 1074))) = m"
    and "of_int m * (2::rat) powi (max (e - 52) (- 1074)) < 2 ^ 1024"
  shows "b64_round x = Fin (of_int m * 2 powi (max (e - 52) (- 1074)))"
  using assms(4,5)
  by (simp add: b64_round_pos [OF assms(1)] ilog2_eq [OF assms(1,2,3)] Let_def)

section \<open>The new line count\<close>

text \<open>
  The line count that \<open>shrink\<close> computes is between 0 and the number of lines for a
  shrink speed between 0 and 1, and below the number of lines once \<open>1 - shrink_speed\<close> is
  below 1 as a float. With the default shrink speed, 90 lines give a line count of 62,
  where the floor of the exact product is 63.
\<close>

lemma one_minus_unit:
  assumes "0 \<le> f" "f \<le> 1"
  shows "\<exists>g. one_minus (Fin f) = Fin g \<and> 0 \<le> g \<and> g \<le> 1"
  using b64_round_le [of "1 - f" 1 0] assms by (simp add: one_minus_def)

lemma one_minus_below_one:
  assumes "2 powi (- 53) \<le> f" "f \<le> 1"
  shows "\<exists>g. one_minus (Fin f) = Fin g \<and> 0 \<le> g \<and> g \<le> 1 - 2 powi (- 53)"
proof -
  have eq: "of_int (2 ^ 53 - 1) * (2::rat) powi (- 53) = 1 - 2 powi (- 53)"
    by simp
  have "(0::rat) < 2 powi (- 53)"
    by simp
  then have "0 < f"
    using assms(1) by linarith
  then have "\<exists>y. b64_round (1 - f) = Fin y \<and> 0 \<le> y \<and> y \<le> of_int (2 ^ 53 - 1) * 2 powi (- 53)"
    using assms by (intro b64_round_le) (simp_all only: eq, simp_all)
  then show ?thesis
    by (simp only: eq one_minus_def pyfloat.case)
qed

lemma float_of_nat_exact: "n < 2 ^ 53 \<Longrightarrow> float_of_nat n = Inr (Fin (of_nat n))"
  by (simp add: float_of_nat_def b64_round_of_nat)

lemma of_nat_less_2_53:
  assumes "n < 2 ^ 53"
  shows "(of_nat n :: rat) < 2 ^ 53"
  using assms by (metis of_nat_less_iff of_nat_numeral of_nat_power)

lemma new_line_count_unit:
  assumes "0 \<le> f" "f \<le> 1" "n < 2 ^ 53"
  shows "\<exists>k. new_line_count n (Fin f) = Inr k \<and> 0 \<le> k \<and> k \<le> int n"
proof -
  obtain g where g: "one_minus (Fin f) = Fin g" "0 \<le> g" "g \<le> 1"
    using one_minus_unit [OF assms(1,2)] by blast
  have n53: "(of_nat n :: rat) < 2 ^ 53"
    using assms(3) by (rule of_nat_less_2_53)
  have le: "of_nat n * g \<le> of_nat n"
    using g(3) by (simp add: mult_left_le)
  have "(2::rat) ^ 53 < 2 ^ 1024"
    by simp
  then have big: "(of_nat n :: rat) < 2 ^ 1024"
    using n53 by linarith
  have "\<exists>y. b64_round (of_nat n * g) = Fin y \<and> 0 \<le> y \<and> y \<le> of_int (int n) * 2 powi 0"
    using g(2) le n53 big by (intro b64_round_le) simp_all
  then obtain y where y: "b64_round (of_nat n * g) = Fin y" "0 \<le> y" "y \<le> of_nat n"
    by auto
  have "new_line_count n (Fin f) = Inr \<lfloor>y\<rfloor>"
    using y(1,2) by (simp add: new_line_count_def float_of_nat_exact [OF assms(3)] err_bind_def g(1) py_int_def)
  moreover have "0 \<le> \<lfloor>y\<rfloor>"
    using y(2) by simp
  moreover have "\<lfloor>y\<rfloor> \<le> int n"
    using y(3) by (simp add: floor_le_iff)
  ultimately show ?thesis
    by blast
qed

lemma new_line_count_less:
  assumes "2 powi (- 53) \<le> f" "f \<le> 1" "0 < n" "n < 2 ^ 53"
  shows "\<exists>k. new_line_count n (Fin f) = Inr k \<and> 0 \<le> k \<and> k < int n"
proof -
  obtain g where g: "one_minus (Fin f) = Fin g" "0 \<le> g" "g \<le> 1 - 2 powi (- 53)"
    using one_minus_below_one [OF assms(1,2)] by blast
  have "of_nat n * g \<le> (of_nat n :: rat) * (1 - 2 powi (- 53))"
    using g(3) by (rule mult_left_mono) simp
  then have le: "of_nat n * g \<le> of_int (int n) * (1 - 2 powi (- 53))"
    by (simp only: of_int_of_nat_eq)
  have n53: "int n < 2 ^ 53"
    using assms(4) by (metis of_nat_less_iff of_nat_numeral of_nat_power)
  have "\<exists>y. b64_round (of_nat n * g) = Fin y \<and> 0 \<le> y \<and> y < of_int (int n)"
    using g(2) le assms(3) n53 by (intro b64_round_less) simp_all
  then obtain y where y: "b64_round (of_nat n * g) = Fin y" "0 \<le> y" "y < of_nat n"
    by auto
  have "new_line_count n (Fin f) = Inr \<lfloor>y\<rfloor>"
    using y(1,2) by (simp add: new_line_count_def float_of_nat_exact [OF assms(4)] err_bind_def g(1) py_int_def)
  moreover have "0 \<le> \<lfloor>y\<rfloor>"
    using y(2) by simp
  moreover have "\<lfloor>y\<rfloor> < int n"
    using y(3) by (simp add: floor_less_iff)
  ultimately show ?thesis
    by blast
qed

lemma new_line_count_empty:
  assumes "one_minus speed = Fin g"
  shows "new_line_count 0 speed = Inr 0"
  using assms by (simp add: new_line_count_def float_of_nat_def b64_round_def err_bind_def py_int_def)

lemma default_shrink_speed_eq: "default_shrink_speed = Fin (5404319552844595 / 2 ^ 54)"
  by (rule default_shrink_speed_def)

lemma default_shrink_speed_bounds:
  "(2::rat) powi (- 53) \<le> 5404319552844595 / 2 ^ 54"
  "(0::rat) \<le> 5404319552844595 / 2 ^ 54"
  "(5404319552844595 / 2 ^ 54 :: rat) \<le> 1"
  by simp_all

lemma one_minus_default:
  "one_minus default_shrink_speed = Fin (3152519739159347 / 2 ^ 52)"
proof -
  have "round_half_even ((1 - 5404319552844595 / 2 ^ 54) / 2 powi (max (- 1 - 52) (- 1074)))
      = 6305039478318694"
    using round_half_even_tie [of _ 6305039478318694] by simp
  then have "b64_round (1 - 5404319552844595 / 2 ^ 54) =
      Fin (of_int 6305039478318694 * 2 powi (max (- 1 - 52) (- 1074)))"
    by (intro b64_round_eval) simp_all
  then show ?thesis
    by (simp add: one_minus_def default_shrink_speed_def)
qed

lemma new_line_count_0_default: "new_line_count 0 default_shrink_speed = Inr 0"
proof -
  obtain g where "one_minus default_shrink_speed = Fin g"
    using one_minus_unit [OF default_shrink_speed_bounds(2,3)]
    unfolding default_shrink_speed_def by blast
  then show ?thesis
    by (rule new_line_count_empty)
qed

lemma new_line_count_1_default: "new_line_count 1 default_shrink_speed = Inr 0"
  using new_line_count_less [OF default_shrink_speed_bounds(1,3), of 1]
  unfolding default_shrink_speed_def by auto

lemma new_line_count_3_default: "new_line_count 3 default_shrink_speed = Inr 2"
proof -
  have "round_half_even (3 * (3152519739159347 / 2 ^ 52) / 2 powi (max (1 - 52) (- 1074)))
      = 4728779608739020"
    using round_half_even_tie [of _ 4728779608739020] by simp
  then have "b64_round (3 * (3152519739159347 / 2 ^ 52)) =
      Fin (of_int 4728779608739020 * 2 powi (max (1 - 52) (- 1074)))"
    by (intro b64_round_eval) simp_all
  then have "float_mul (Fin 3) (one_minus default_shrink_speed)
      = Fin (4728779608739020 / 2 ^ 51)"
    by (simp add: one_minus_default)
  moreover have "float_of_nat 3 = Inr (Fin 3)"
    using float_of_nat_exact [of 3] by simp
  ultimately show ?thesis
    by (simp add: new_line_count_def err_bind_def py_int_def floor_eq_iff)
qed

lemma new_line_count_5_default: "new_line_count 5 default_shrink_speed = Inr 3"
proof -
  have "round_half_even (5 * (3152519739159347 / 2 ^ 52) / 2 powi (max (1 - 52) (- 1074)))
      = 7881299347898368"
    using round_half_even_tie [of _ 7881299347898367] by simp
  then have "b64_round (5 * (3152519739159347 / 2 ^ 52)) =
      Fin (of_int 7881299347898368 * 2 powi (max (1 - 52) (- 1074)))"
    by (intro b64_round_eval) simp_all
  then have "float_mul (Fin 5) (one_minus default_shrink_speed) = Fin (7 / 2)"
    by (simp add: one_minus_default)
  moreover have "float_of_nat 5 = Inr (Fin 5)"
    using float_of_nat_exact [of 5] by simp
  ultimately show ?thesis
    by (simp add: new_line_count_def err_bind_def py_int_def floor_eq_iff)
qed

lemma new_line_count_90_default: "new_line_count 90 default_shrink_speed = Inr 62"
proof -
  have "round_half_even (90 * (3152519739159347 / 2 ^ 52) / 2 powi (max (5 - 52) (- 1074)))
      = 8866461766385663"
    by (intro round_half_even_near) simp_all
  then have "b64_round (90 * (3152519739159347 / 2 ^ 52)) =
      Fin (of_int 8866461766385663 * 2 powi (max (5 - 52) (- 1074)))"
    by (intro b64_round_eval) simp_all
  then have "float_mul (Fin 90) (one_minus default_shrink_speed)
      = Fin (8866461766385663 / 2 ^ 47)"
    by (simp add: one_minus_default)
  moreover have "float_of_nat 90 = Inr (Fin 90)"
    using float_of_nat_exact [of 90] by simp
  ultimately show ?thesis
    by (simp add: new_line_count_def err_bind_def py_int_def floor_eq_iff)
qed

lemma exact_floor_90: "\<lfloor>90 * (1 - 5404319552844595 / 2 ^ 54 :: rat)\<rfloor> = 63"
  by (simp add: floor_eq_iff)

section \<open>Lines of a text\<close>

lemma no_break_Nil: "no_break []"
  by (simp add: no_break_def)

lemma no_break_Cons: "no_break (c # l) \<longleftrightarrow> \<not> is_linebreak c \<and> no_break l"
  by (simp add: no_break_def)

lemma no_break_snoc: "no_break (l @ [c]) \<longleftrightarrow> no_break l \<and> \<not> is_linebreak c"
  by (auto simp: no_break_def)

lemma no_break_append: "no_break (a @ b) \<longleftrightarrow> no_break a \<and> no_break b"
  by (auto simp: no_break_def)

lemma linebreak_CR: "is_linebreak (CHR 0x0D)"
  by (simp add: is_linebreak_def)

lemma linebreak_LF: "is_linebreak (CHR 0x0A)"
  by (simp add: is_linebreak_def)

lemma split_from_line:
  "no_break l \<Longrightarrow> split_from cur (l @ CHR 0x0A # rest) = (cur @ l) # split_from [] rest"
proof (induction l arbitrary: cur)
  case Nil
  then show ?case by (simp add: linebreak_LF)
next
  case (Cons c l)
  then have c: "\<not> is_linebreak c" and l: "no_break l"
    by (simp_all add: no_break_Cons)
  from c have "c \<noteq> CHR 0x0D"
    using linebreak_CR by auto
  with c show ?case
    by (simp add: Cons.IH [OF l])
qed

lemma split_from_no_break:
  "no_break m \<Longrightarrow> split_from cur m = (if cur @ m = [] then [] else [cur @ m])"
proof (induction m arbitrary: cur)
  case Nil
  then show ?case by simp
next
  case (Cons c m)
  then have c: "\<not> is_linebreak c" and m: "no_break m"
    by (simp_all add: no_break_Cons)
  from c have "c \<noteq> CHR 0x0D"
    using linebreak_CR by auto
  with c show ?case
    by (simp add: Cons.IH [OF m])
qed

lemma split_from_lines:
  "no_break cur \<Longrightarrow> \<forall>l\<in>set (split_from cur s). no_break l"
proof (induction cur s rule: split_from.induct)
  case (1 cur)
  then show ?case by simp
next
  case (2 cur c cs)
  show ?case
  proof (cases "c = CHR 0x0D")
    case True
    show ?thesis
    proof (cases cs)
      case Nil
      with True 2(5) show ?thesis by simp
    next
      case (Cons d ds)
      show ?thesis
      proof (cases "d = CHR 0x0A")
        case dl: True
        have "\<forall>l\<in>set (split_from [] ds). no_break l"
          using 2(1) [OF True Cons dl no_break_Nil] .
        with True Cons dl 2(5) show ?thesis by simp
      next
        case dl: False
        have "\<forall>l\<in>set (split_from [] (d # ds)). no_break l"
          using 2(2) [OF True Cons dl no_break_Nil] .
        with True Cons dl 2(5) show ?thesis by simp
      qed
    qed
  next
    case False
    show ?thesis
    proof (cases "is_linebreak c")
      case lb: True
      have "\<forall>l\<in>set (split_from [] cs). no_break l"
        using 2(3) [OF False lb no_break_Nil] .
      with False lb 2(5) show ?thesis by simp
    next
      case lb: False
      have "no_break (cur @ [c])"
        using 2(5) lb by (simp add: no_break_snoc)
      then have "\<forall>l\<in>set (split_from (cur @ [c]) cs). no_break l"
        using 2(4) [OF False lb] by simp
      with False lb show ?thesis by simp
    qed
  qed
qed

lemma splitlines_lines: "\<forall>l\<in>set (splitlines s). no_break l"
  unfolding splitlines_def by (rule split_from_lines [OF no_break_Nil])

lemma splitlines_join:
  assumes "ls \<noteq> []" "\<forall>l\<in>set ls. no_break l" "no_break m" "m \<noteq> []"
  shows "splitlines (join_nl ls @ CHR 0x0A # m) = ls @ [m]"
  using assms(1,2)
proof (induction ls rule: join_nl.induct)
  case 1
  then show ?case by simp
next
  case (2 l)
  then show ?case
    using assms(3,4) by (simp add: splitlines_def split_from_line split_from_no_break)
next
  case (3 l k ls)
  then have "split_from [] (join_nl (k # ls) @ CHR 0x0A # m) = (k # ls) @ [m]"
    by (simp add: splitlines_def)
  with 3(3) show ?case
    by (simp add: splitlines_def split_from_line)
qed

lemma splitlines_marker_only:
  assumes "no_break m" "m \<noteq> []"
  shows "splitlines (CHR 0x0A # m) = [[], m]"
  using assms by (simp add: splitlines_def linebreak_LF split_from_no_break)

lemma digit_char_in: "digit_char d \<in> set ''0123456789''"
  unfolding digit_char_def by (rule nth_mem) simp

lemma str_of_nat_digits: "set (str_of_nat n) \<subseteq> set ''0123456789''"
proof (induction n rule: str_of_nat.induct)
  case (1 n)
  show ?case
  proof (cases "n < 10")
    case True
    then show ?thesis
      using digit_char_in [of n] by (subst str_of_nat.simps) simp
  next
    case False
    then show ?thesis
      using digit_char_in [of n] 1 by (subst str_of_nat.simps) simp
  qed
qed

lemma no_break_digits: "set l \<subseteq> set ''0123456789'' \<Longrightarrow> no_break l"
  by (auto simp: no_break_def is_linebreak_def)

lemma no_break_str_of_int: "no_break (str_of_int d)"
  using no_break_digits [OF str_of_nat_digits]
  by (simp add: str_of_int_def no_break_Cons is_linebreak_def)

lemma marker_line_no_break: "no_break (marker_line d)"
  unfolding marker_line_def no_break_append
  by (simp add: no_break_str_of_int) (simp add: no_break_def is_linebreak_def)

lemma marker_line_not_empty: "marker_line d \<noteq> []"
  by (simp add: marker_line_def)

lemma splitlines_truncated:
  assumes "\<forall>l\<in>set ls. no_break l"
  shows "splitlines (join_nl ls @ deleted_marker d) =
         (if ls = [] then [[]] else ls) @ [marker_line d]"
  using assms splitlines_join [of ls "marker_line d"] splitlines_marker_only [of "marker_line d"]
  by (simp add: deleted_marker_def marker_line_no_break marker_line_not_empty)

lemma truncated_lines:
  assumes "0 \<le> k"
  shows "splitlines (join_nl (slice_to (splitlines s) k) @ deleted_marker d) =
         (if take (nat k) (splitlines s) = [] then [[]] else take (nat k) (splitlines s)) @
         [marker_line d]"
proof -
  have "\<forall>l\<in>set (take (nat k) (splitlines s)). no_break l"
    using splitlines_lines [of s] by (meson in_set_takeD)
  then show ?thesis
    using assms by (simp add: slice_to_def splitlines_truncated)
qed

section \<open>The cases of a shrink call\<close>

lemma shrink_noop:
  "\<not> (is_visible w t \<and> start_trunkate_iteration t \<le> shrink_calls t) \<Longrightarrow>
   shrink w t = Inr (t\<lparr>shrink_calls := shrink_calls t + 1\<rparr>)"
  by (auto simp add: shrink_def err_bind_def)

lemma shrink_truncates:
  assumes "is_visible w t" "start_trunkate_iteration t \<le> shrink_calls t"
    and "new_line_count (length (splitlines (u_prompt t))) (shrink_speed t) = Inr k"
  shows "shrink w t =
    Inr (t\<lparr>deleted_lines := deleted_lines t + (int (length (splitlines (u_prompt t))) - k),
           u_prompt := join_nl (slice_to (splitlines (u_prompt t)) k) @
             deleted_marker (deleted_lines t + (int (length (splitlines (u_prompt t))) - k)),
           shrink_calls := shrink_calls t + 1\<rparr>)"
  using assms by (simp add: shrink_def err_bind_def Let_def)

lemma shrink_raises:
  assumes "is_visible w t" "start_trunkate_iteration t \<le> shrink_calls t"
    and "new_line_count (length (splitlines (u_prompt t))) (shrink_speed t) = Inl e"
  shows "shrink w t = Inl e"
  using assms by (simp add: shrink_def err_bind_def Let_def)

lemma shrink_cases:
  obtains (noop) "shrink w t = Inr (t\<lparr>shrink_calls := shrink_calls t + 1\<rparr>)"
        "\<not> (is_visible w t \<and> start_trunkate_iteration t \<le> shrink_calls t)"
  | (cut) k where "is_visible w t" "start_trunkate_iteration t \<le> shrink_calls t"
        "new_line_count (length (splitlines (u_prompt t))) (shrink_speed t) = Inr k"
        "shrink w t =
          Inr (t\<lparr>deleted_lines := deleted_lines t + (int (length (splitlines (u_prompt t))) - k),
           u_prompt := join_nl (slice_to (splitlines (u_prompt t)) k) @
             deleted_marker (deleted_lines t + (int (length (splitlines (u_prompt t))) - k)),
           shrink_calls := shrink_calls t + 1\<rparr>)"
  | (raise) e where "is_visible w t" "start_trunkate_iteration t \<le> shrink_calls t"
        "new_line_count (length (splitlines (u_prompt t))) (shrink_speed t) = Inl e"
        "shrink w t = Inl e"
proof (cases "is_visible w t \<and> start_trunkate_iteration t \<le> shrink_calls t")
  case False
  show ?thesis
    by (rule noop [OF shrink_noop [OF False] False])
next
  case True
  then have v: "is_visible w t" and s: "start_trunkate_iteration t \<le> shrink_calls t"
    by simp_all
  show ?thesis
  proof (cases "new_line_count (length (splitlines (u_prompt t))) (shrink_speed t)")
    case (Inl e)
    show ?thesis
      by (rule raise [OF v s Inl shrink_raises [OF v s Inl]])
  next
    case (Inr k)
    show ?thesis
      by (rule cut [OF v s Inr shrink_truncates [OF v s Inr]])
  qed
qed

lemma is_visible_shrink_calls [simp]:
  "is_visible w (t\<lparr>shrink_calls := n\<rparr>) = is_visible w t"
  by (simp add: is_visible_def)

lemma shrink_run_invisible:
  "\<forall>v\<in>set ws. \<not> is_visible v t \<Longrightarrow>
   shrink_run ws t = Inr (t\<lparr>shrink_calls := shrink_calls t + int (length ws)\<rparr>)"
proof (induction ws arbitrary: t)
  case Nil
  then show ?case by simp
next
  case (Cons w ws)
  then have "shrink w t = Inr (t\<lparr>shrink_calls := shrink_calls t + 1\<rparr>)"
    by (simp add: shrink_noop)
  moreover have "\<forall>v\<in>set ws. \<not> is_visible v (t\<lparr>shrink_calls := shrink_calls t + 1\<rparr>)"
    using Cons.prems by simp
  ultimately show ?case
    using Cons.IH [of "t\<lparr>shrink_calls := shrink_calls t + 1\<rparr>"]
    by (simp add: err_bind_def add.assoc)
qed

lemma shrink_run_early:
  "shrink_calls t + int (length ws) \<le> start_trunkate_iteration t \<Longrightarrow>
   shrink_run ws t = Inr (t\<lparr>shrink_calls := shrink_calls t + int (length ws)\<rparr>)"
proof (induction ws arbitrary: t)
  case Nil
  then show ?case by simp
next
  case (Cons w ws)
  then have "shrink w t = Inr (t\<lparr>shrink_calls := shrink_calls t + 1\<rparr>)"
    by (simp add: shrink_noop)
  moreover have "shrink_calls (t\<lparr>shrink_calls := shrink_calls t + 1\<rparr>) + int (length ws)
      \<le> start_trunkate_iteration (t\<lparr>shrink_calls := shrink_calls t + 1\<rparr>)"
    using Cons.prems by simp
  ultimately show ?case
    using Cons.IH [of "t\<lparr>shrink_calls := shrink_calls t + 1\<rparr>"]
    by (simp add: err_bind_def add.assoc)
qed

lemma shrink_run_snoc:
  "shrink_run (ws @ [w]) t = err_bind (shrink_run ws t) (shrink w)"
  by (induction ws arbitrary: t) (simp_all add: err_bind_def split: sum.splits)

lemma shrink_run_counter:
  "shrink_run ws t0 = Inr t \<Longrightarrow>
   start_trunkate_iteration t = start_trunkate_iteration t0
   \<and> shrink_calls t = shrink_calls t0 + int (length ws)
   \<and> u_visible t = u_visible t0"
proof (induction ws arbitrary: t0)
  case Nil
  then show ?case by simp
next
  case (Cons w ws)
  then obtain t1 where t1: "shrink w t0 = Inr t1" "shrink_run ws t1 = Inr t"
    by (auto simp: err_bind_def split: sum.splits)
  have "start_trunkate_iteration t1 = start_trunkate_iteration t0
      \<and> shrink_calls t1 = shrink_calls t0 + 1 \<and> u_visible t1 = u_visible t0"
    using t1(1) by (cases rule: shrink_cases [of w t0]) auto
  then show ?case
    using Cons.IH [OF t1(2)] by simp
qed

lemma shrink_step_lines:
  assumes "shrink_speed t = Fin f" "2 powi (- 53) \<le> f" "f \<le> 1"
    and "2 \<le> length (splitlines (u_prompt t))" "length (splitlines (u_prompt t)) < 2 ^ 53"
  shows "\<exists>t'. shrink w t = Inr t' \<and> shrink_speed t' = Fin f
    \<and> 2 \<le> length (splitlines (u_prompt t'))
    \<and> length (splitlines (u_prompt t')) \<le> length (splitlines (u_prompt t))"
proof (cases "is_visible w t \<and> start_trunkate_iteration t \<le> shrink_calls t")
  case False
  have "shrink w t = Inr (t\<lparr>shrink_calls := shrink_calls t + 1\<rparr>)"
    by (rule shrink_noop [OF False])
  then show ?thesis
    using assms(1,4) by simp
next
  case True
  let ?ls = "splitlines (u_prompt t)"
  have pos: "0 < length ?ls"
    using assms(4) by linarith
  obtain k where k: "new_line_count (length ?ls) (shrink_speed t) = Inr k"
      "0 \<le> k" "k < int (length ?ls)"
    using new_line_count_less [OF assms(2,3) pos assms(5)] assms(1) by auto
  let ?d = "deleted_lines t + (int (length ?ls) - k)"
  let ?t' = "t\<lparr>deleted_lines := ?d,
               u_prompt := join_nl (slice_to ?ls k) @ deleted_marker ?d,
               shrink_calls := shrink_calls t + 1\<rparr>"
  have sh: "shrink w t = Inr ?t'"
    using True k(1) by (simp add: shrink_truncates)
  have len: "length (take (nat k) ?ls) = nat k"
    using k(3) by simp
  have "length (splitlines (u_prompt ?t')) = (if take (nat k) ?ls = [] then 1 else nat k) + 1"
    using truncated_lines [OF k(2), of "u_prompt t" ?d] len by simp
  then have "2 \<le> length (splitlines (u_prompt ?t'))
      \<and> length (splitlines (u_prompt ?t')) \<le> length ?ls"
    using k(2,3) assms(4) len by (auto split: if_splits)
  then show ?thesis
    using sh assms(1) by (intro exI [of _ ?t']) simp
qed

lemma shrink_run_lines:
  assumes "shrink_speed t = Fin f" "2 powi (- 53) \<le> f" "f \<le> 1"
    and "2 \<le> length (splitlines (u_prompt t))" "length (splitlines (u_prompt t)) < 2 ^ 53"
  shows "\<exists>t'. shrink_run ws t = Inr t' \<and> shrink_speed t' = Fin f
    \<and> 2 \<le> length (splitlines (u_prompt t'))
    \<and> length (splitlines (u_prompt t')) \<le> length (splitlines (u_prompt t))"
  using assms(1,4,5)
proof (induction ws arbitrary: t)
  case Nil
  then show ?case by simp
next
  case (Cons w ws)
  obtain t1 where t1: "shrink w t = Inr t1" "shrink_speed t1 = Fin f"
      "2 \<le> length (splitlines (u_prompt t1))"
      "length (splitlines (u_prompt t1)) \<le> length (splitlines (u_prompt t))"
    using shrink_step_lines [OF Cons.prems(1) assms(2,3) Cons.prems(2,3)] by blast
  have "length (splitlines (u_prompt t1)) < 2 ^ 53"
    using t1(4) Cons.prems(3) by simp
  then obtain t2 where t2: "shrink_run ws t1 = Inr t2" "shrink_speed t2 = Fin f"
      "2 \<le> length (splitlines (u_prompt t2))"
      "length (splitlines (u_prompt t2)) \<le> length (splitlines (u_prompt t1))"
    using Cons.IH [OF t1(2,3)] by blast
  show ?case
    using t1 t2 by (intro exI [of _ t2]) (simp add: err_bind_def)
qed

section \<open>The example elements\<close>

lemma splitlines_abc: "splitlines ''abc'' = [''abc'']"
  by (simp add: splitlines_def is_linebreak_def)

lemma str_of_int_small: "str_of_int 0 = ''0''" "str_of_int 1 = ''1''" "str_of_int 2 = ''2''"
  by (simp_all add: str_of_int_def str_of_nat.simps digit_char_def)

lemma marker_lines_example:
  "length (splitlines ''\<newline>... Deleted 1 lines to reduce prompt size.'') = 2"
  by (simp add: splitlines_def is_linebreak_def)

lemma one_line_example_run:
  "shrink_run (replicate 10 ()) one_line_example = Inr (one_line_example\<lparr>shrink_calls := 10\<rparr>)"
  using shrink_run_early [of one_line_example "replicate 10 ()"]
  by (simp add: one_line_example_def Trunkater_init_def)

lemma one_line_example_shrink:
  "shrink () (one_line_example\<lparr>shrink_calls := 10\<rparr>) =
     Inr (one_line_example\<lparr>deleted_lines := 1,
        u_prompt := ''\<newline>... Deleted 1 lines to reduce prompt size.'', shrink_calls := 11\<rparr>)"
proof -
  let ?t = "one_line_example\<lparr>shrink_calls := 10\<rparr>"
  have v: "is_visible () ?t"
    by (simp add: one_line_example_def Trunkater_init_def is_visible_def)
  have s: "start_trunkate_iteration ?t \<le> shrink_calls ?t"
    by (simp add: one_line_example_def Trunkater_init_def)
  have p: "u_prompt ?t = ''abc''" and sp: "shrink_speed ?t = default_shrink_speed"
    and d: "deleted_lines ?t = 0"
    by (simp_all add: one_line_example_def Trunkater_init_def)
  have "length (splitlines (u_prompt ?t)) = 1"
    by (simp add: p splitlines_abc)
  then have n: "new_line_count (length (splitlines (u_prompt ?t))) (shrink_speed ?t) = Inr 0"
    by (simp only: sp new_line_count_1_default)
  show ?thesis
    unfolding shrink_truncates [OF v s n]
    by (simp add: p d splitlines_abc slice_to_def deleted_marker_def marker_line_def
        str_of_int_small one_line_example_def Trunkater_init_def)
qed

lemma empty_example_fields:
  "u_prompt (empty_example\<lparr>shrink_calls := 10\<rparr>) = []"
  "is_visible () (empty_example\<lparr>shrink_calls := 10\<rparr>)"
  "start_trunkate_iteration (empty_example\<lparr>shrink_calls := 10\<rparr>) = 10"
  "shrink_calls (empty_example\<lparr>shrink_calls := 10\<rparr>) = 10"
  "deleted_lines (empty_example\<lparr>shrink_calls := 10\<rparr>) = 0"
  "shrink_speed (empty_example\<lparr>shrink_calls := 10\<rparr>) = default_shrink_speed"
  by (simp_all add: empty_example_def Trunkater_init_def is_visible_def)

lemma empty_example_run:
  "shrink_run (replicate 10 ()) empty_example = Inr (empty_example\<lparr>shrink_calls := 10\<rparr>)"
  using shrink_run_early [of empty_example "replicate 10 ()"]
  by (simp add: empty_example_def Trunkater_init_def)

lemma empty_example_shrink:
  "shrink () (empty_example\<lparr>shrink_calls := 10\<rparr>) =
     Inr (empty_example\<lparr>u_prompt := ''\<newline>... Deleted 0 lines to reduce prompt size.'',
        shrink_calls := 11\<rparr>)"
proof -
  let ?t = "empty_example\<lparr>shrink_calls := 10\<rparr>"
  have "length (splitlines (u_prompt ?t)) = 0"
    by (simp add: empty_example_fields splitlines_def)
  then have n: "new_line_count (length (splitlines (u_prompt ?t))) (shrink_speed ?t) = Inr 0"
    by (simp only: empty_example_fields new_line_count_0_default)
  have s: "start_trunkate_iteration ?t \<le> shrink_calls ?t"
    by (simp add: empty_example_fields)
  show ?thesis
    unfolding shrink_truncates [OF empty_example_fields(2) s n]
    by (simp add: empty_example_fields splitlines_def slice_to_def deleted_marker_def
        marker_line_def str_of_int_small empty_example_def Trunkater_init_def)
qed

lemma html_example_lines:
  "splitlines (u_prompt html_example) = [[], ''HTML:'', ''a'', ''b'', ''c'']"
  by (simp add: html_example_def HTML_init_def Trunkater_init_def splitlines_def is_linebreak_def)

lemma html_example_fields:
  "is_visible () html_example" "start_trunkate_iteration html_example = 5"
  "shrink_calls html_example = 5" "deleted_lines html_example = 0"
  "shrink_speed html_example = default_shrink_speed"
  by (simp_all add: html_example_def HTML_init_def Trunkater_init_def is_visible_def)

lemma html_example_run:
  "shrink_run (replicate 5 ()) (HTML_init ''a\<newline>b\<newline>c'' (VBool True) []) = Inr html_example"
  using shrink_run_early [of "HTML_init ''a\<newline>b\<newline>c'' (VBool True) [] :: unit Trunkater" "replicate 5 ()"]
  by (simp add: html_example_def HTML_init_def Trunkater_init_def)

lemma html_example_shrink:
  "shrink () html_example =
     Inr (html_example\<lparr>deleted_lines := 2,
        u_prompt := ''\<newline>HTML:\<newline>a\<newline>... Deleted 2 lines to reduce prompt size.'',
        shrink_calls := 6\<rparr>)"
proof -
  have "length (splitlines (u_prompt html_example)) = 5"
    by (simp add: html_example_lines)
  then have n: "new_line_count (length (splitlines (u_prompt html_example)))
      (shrink_speed html_example) = Inr 3"
    by (simp only: html_example_fields new_line_count_5_default)
  have s: "start_trunkate_iteration html_example \<le> shrink_calls html_example"
    by (simp add: html_example_fields)
  show ?thesis
    unfolding shrink_truncates [OF html_example_fields(1) s n]
    by (simp add: html_example_lines html_example_fields slice_to_def deleted_marker_def
        marker_line_def str_of_int_small)
qed

lemma axtree_example_run:
  "shrink_run (replicate 10 ()) (AXTree_init ''[1] Click me'' (VBool True) None [])
     = Inr axtree_example"
  using shrink_run_early
    [of "AXTree_init ''[1] Click me'' (VBool True) None [] :: unit Trunkater" "replicate 10 ()"]
  by (simp add: axtree_example_def AXTree_init_def Trunkater_init_def)

lemma flag_example_lines:
  "splitlines (u_prompt flag_example) =
     [[], ''AXTree (you may only interact with elements in this tree):'', ''[1] Click me'']"
  by (simp add: flag_example_def AXTree_init_def Trunkater_init_def coord_note_def
      splitlines_def is_linebreak_def)

lemma flag_example_fields:
  "\<not> is_visible False flag_example" "is_visible True flag_example"
  "start_trunkate_iteration flag_example = 10" "shrink_calls flag_example = 0"
  "deleted_lines flag_example = 0" "shrink_speed flag_example = default_shrink_speed"
  by (simp_all add: flag_example_def AXTree_init_def Trunkater_init_def is_visible_def)

section \<open>Invisible elements\<close>

text \<open>
  C8. An element whose visibility flag is false at the time of rendering (a false bool, or
  a callable that returns false then) renders the empty text as its prompt, its abstract
  example and its concrete example, whatever its texts and the rest of its state are. The
  statement is about every extension of the element record, truncating elements included.
\<close>

theorem invisible_renders_empty:
  "\<not> is_visible w e \<Longrightarrow> prompt w e = [] \<and> abstract_ex w e = [] \<and> concrete_ex w e = []"
  by (simp add: prompt_def abstract_ex_def concrete_ex_def hide_def)

theorem invisible_renders_empty_witness:
  "\<not> is_visible False
       \<lparr>u_visible = VCallable (\<lambda>flag. flag), u_prompt = ''page'',
        u_abstract_ex = ''abstract'', u_concrete_ex = ''concrete''\<rparr>
   \<and> prompt False
       \<lparr>u_visible = VCallable (\<lambda>flag. flag), u_prompt = ''page'',
        u_abstract_ex = ''abstract'', u_concrete_ex = ''concrete''\<rparr> = []
   \<and> abstract_ex False
       \<lparr>u_visible = VCallable (\<lambda>flag. flag), u_prompt = ''page'',
        u_abstract_ex = ''abstract'', u_concrete_ex = ''concrete''\<rparr> = []
   \<and> concrete_ex False
       \<lparr>u_visible = VCallable (\<lambda>flag. flag), u_prompt = ''page'',
        u_abstract_ex = ''abstract'', u_concrete_ex = ''concrete''\<rparr> = []"
proof -
  let ?e = "\<lparr>u_visible = VCallable (\<lambda>flag. flag), u_prompt = ''page'',
             u_abstract_ex = ''abstract'', u_concrete_ex = ''concrete''\<rparr>"
  have h: "\<not> is_visible False ?e"
    by (simp add: is_visible_def)
  show ?thesis
    using h invisible_renders_empty [OF h] by simp
qed

section \<open>The threshold of a truncating element\<close>

text \<open>
  C7. A shrink call that returns a different text was made while the element was visible
  and with a call counter at or past the threshold. After a run of calls on a new HTML
  element the threshold is 5 and the counter is the number of calls made; on a new
  accessibility tree the threshold is 10. So the text of an HTML element cannot change
  before its sixth call, that of an accessibility tree before its eleventh, and never in
  a call made while invisible: such a call returns the element with one more call counted
  and the same text.
\<close>

theorem shrink_text_threshold:
  "(shrink w t = Inr t' \<and> u_prompt t' \<noteq> u_prompt t \<longrightarrow>
      is_visible w t \<and> start_trunkate_iteration t \<le> shrink_calls t)
   \<and> (shrink_run ws (HTML_init html vis prefix) = Inr th \<longrightarrow>
      start_trunkate_iteration th = 5 \<and> shrink_calls th = int (length ws))
   \<and> (shrink_run ws' (AXTree_init ax_tree vis' coord_type prefix') = Inr ta \<longrightarrow>
      start_trunkate_iteration ta = 10 \<and> shrink_calls ta = int (length ws'))
   \<and> (\<not> is_visible v u \<or> shrink_calls u < start_trunkate_iteration u \<longrightarrow>
      shrink v u = Inr (u\<lparr>shrink_calls := shrink_calls u + 1\<rparr>)
      \<and> u_prompt (u\<lparr>shrink_calls := shrink_calls u + 1\<rparr>) = u_prompt u)"
proof (intro conjI impI)
  assume "\<not> is_visible v u \<or> shrink_calls u < start_trunkate_iteration u"
  then have "\<not> (is_visible v u \<and> start_trunkate_iteration u \<le> shrink_calls u)"
    by auto
  then show "shrink v u = Inr (u\<lparr>shrink_calls := shrink_calls u + 1\<rparr>)"
    by (rule shrink_noop)
next
  show "u_prompt (u\<lparr>shrink_calls := shrink_calls u + 1\<rparr>) = u_prompt u"
    by simp
next
  assume a: "shrink w t = Inr t' \<and> u_prompt t' \<noteq> u_prompt t"
  have "is_visible w t \<and> start_trunkate_iteration t \<le> shrink_calls t"
  proof (rule ccontr)
    assume "\<not> (is_visible w t \<and> start_trunkate_iteration t \<le> shrink_calls t)"
    then have "shrink w t = Inr (t\<lparr>shrink_calls := shrink_calls t + 1\<rparr>)"
      by (rule shrink_noop)
    with a show False
      by auto
  qed
  then show "is_visible w t" and "start_trunkate_iteration t \<le> shrink_calls t"
    by simp_all
next
  assume "shrink_run ws (HTML_init html vis prefix) = Inr th"
  from shrink_run_counter [OF this]
  show "start_trunkate_iteration th = 5" and "shrink_calls th = int (length ws)"
    by (simp_all add: HTML_init_def Trunkater_init_def)
next
  assume "shrink_run ws' (AXTree_init ax_tree vis' coord_type prefix') = Inr ta"
  from shrink_run_counter [OF this]
  show "start_trunkate_iteration ta = 10" and "shrink_calls ta = int (length ws')"
    by (simp_all add: AXTree_init_def Trunkater_init_def)
qed

theorem shrink_text_threshold_witness:
  "shrink () html_example =
       Inr (html_example\<lparr>deleted_lines := 2,
          u_prompt := ''\<newline>HTML:\<newline>a\<newline>... Deleted 2 lines to reduce prompt size.'',
          shrink_calls := 6\<rparr>)
   \<and> u_prompt (html_example\<lparr>deleted_lines := 2,
          u_prompt := ''\<newline>HTML:\<newline>a\<newline>... Deleted 2 lines to reduce prompt size.'',
          shrink_calls := 6\<rparr>) \<noteq> u_prompt html_example
   \<and> is_visible () html_example
   \<and> start_trunkate_iteration html_example \<le> shrink_calls html_example
   \<and> shrink_run (replicate 5 ()) (HTML_init ''a\<newline>b\<newline>c'' (VBool True) [])
       = Inr html_example
   \<and> start_trunkate_iteration html_example = 5
   \<and> shrink_calls html_example = int (length (replicate 5 ()))
   \<and> shrink_run (replicate 10 ()) (AXTree_init ''[1] Click me'' (VBool True) None [])
       = Inr axtree_example
   \<and> start_trunkate_iteration axtree_example = 10
   \<and> shrink_calls axtree_example = int (length (replicate 10 ()))
   \<and> shrink_calls (HTML_init ''a\<newline>b\<newline>c'' (VBool True) [] :: unit Trunkater)
       < start_trunkate_iteration (HTML_init ''a\<newline>b\<newline>c'' (VBool True) [] :: unit Trunkater)
   \<and> shrink () (HTML_init ''a\<newline>b\<newline>c'' (VBool True) []) =
       Inr ((HTML_init ''a\<newline>b\<newline>c'' (VBool True) [])
          \<lparr>shrink_calls := shrink_calls (HTML_init ''a\<newline>b\<newline>c'' (VBool True) [] :: unit Trunkater) + 1\<rparr>)
   \<and> u_prompt ((HTML_init ''a\<newline>b\<newline>c'' (VBool True) [] :: unit Trunkater)
          \<lparr>shrink_calls := shrink_calls (HTML_init ''a\<newline>b\<newline>c'' (VBool True) [] :: unit Trunkater) + 1\<rparr>)
       = u_prompt (HTML_init ''a\<newline>b\<newline>c'' (VBool True) [] :: unit Trunkater)"
proof -
  let ?h = "HTML_init ''a\<newline>b\<newline>c'' (VBool True) [] :: unit Trunkater"
  let ?t' = "html_example\<lparr>deleted_lines := 2,
          u_prompt := ''\<newline>HTML:\<newline>a\<newline>... Deleted 2 lines to reduce prompt size.'',
          shrink_calls := 6\<rparr>"
  have a1: "shrink () html_example = Inr ?t'"
    by (rule html_example_shrink)
  have a2: "u_prompt ?t' \<noteq> u_prompt html_example"
    by (simp add: html_example_def HTML_init_def)
  note a3 = html_example_run
  note a4 = axtree_example_run
  note inst = shrink_text_threshold
    [where w = "()" and t = html_example and t' = ?t' and ws = "replicate 5 ()"
       and html = "''a\<newline>b\<newline>c''" and vis = "VBool True" and prefix = "[]"
       and th = html_example and ws' = "replicate 10 ()" and ax_tree = "''[1] Click me''"
       and vis' = "VBool True" and coord_type = None and prefix' = "[]"
       and ta = axtree_example and v = "()" and u = ?h]
  have a5: "shrink_calls ?h < start_trunkate_iteration ?h"
    by (simp add: HTML_init_def Trunkater_init_def)
  from inst a1 a2 have c1: "is_visible () html_example
      \<and> start_trunkate_iteration html_example \<le> shrink_calls html_example"
    by blast
  from inst a3 have c2: "start_trunkate_iteration html_example = 5
      \<and> shrink_calls html_example = int (length (replicate 5 ()))"
    by blast
  from inst a4 have c3: "start_trunkate_iteration axtree_example = 10
      \<and> shrink_calls axtree_example = int (length (replicate 10 ()))"
    by blast
  from inst a5 have c4: "shrink () ?h = Inr (?h\<lparr>shrink_calls := shrink_calls ?h + 1\<rparr>)
      \<and> u_prompt (?h\<lparr>shrink_calls := shrink_calls ?h + 1\<rparr>) = u_prompt ?h"
    by blast
  show ?thesis
    using a1 a2 a3 a4 a5 c1 c2 c3 c4 by blast
qed

section \<open>The call counter\<close>

text \<open>
  C10. Every shrink call that returns adds exactly one to the call counter. A call made
  while the element is invisible or before the threshold always returns, and so does a
  call on an element with a shrink fraction between 0 and 1. Hence an element that was
  invisible during its first calls, as many as the threshold asks for, truncates at its
  first visible call: the run of the invisible calls followed by a visible one ends with
  the lines cut to the new line count and the marker appended.
\<close>

theorem shrink_counts_calls:
  "(shrink w t = Inr t' \<longrightarrow> shrink_calls t' = shrink_calls t + 1)
   \<and> (\<not> is_visible w t \<or> shrink_calls t < start_trunkate_iteration t \<longrightarrow>
        shrink w t = Inr (t\<lparr>shrink_calls := shrink_calls t + 1\<rparr>))
   \<and> (shrink_speed t = Fin f \<and> 0 \<le> f \<and> f \<le> 1
        \<and> length (splitlines (u_prompt t)) < 2 ^ 53 \<longrightarrow>
        (\<exists>t1. shrink w t = Inr t1))
   \<and> ((\<forall>v\<in>set ws. \<not> is_visible v t)
        \<and> start_trunkate_iteration t \<le> shrink_calls t + int (length ws)
        \<and> is_visible w' t
        \<and> new_line_count (length (splitlines (u_prompt t))) (shrink_speed t) = Inr k \<longrightarrow>
        shrink_run (ws @ [w']) t =
          Inr (t\<lparr>deleted_lines := deleted_lines t + (int (length (splitlines (u_prompt t))) - k),
                 u_prompt := join_nl (slice_to (splitlines (u_prompt t)) k) @
                   deleted_marker
                     (deleted_lines t + (int (length (splitlines (u_prompt t))) - k)),
                 shrink_calls := shrink_calls t + int (length ws) + 1\<rparr>))"
proof (intro conjI impI)
  assume "shrink w t = Inr t'"
  then show "shrink_calls t' = shrink_calls t + 1"
    by (cases rule: shrink_cases [of w t]) auto
next
  assume "\<not> is_visible w t \<or> shrink_calls t < start_trunkate_iteration t"
  then have "\<not> (is_visible w t \<and> start_trunkate_iteration t \<le> shrink_calls t)"
    by auto
  then show "shrink w t = Inr (t\<lparr>shrink_calls := shrink_calls t + 1\<rparr>)"
    by (rule shrink_noop)
next
  assume a: "shrink_speed t = Fin f \<and> 0 \<le> f \<and> f \<le> 1
    \<and> length (splitlines (u_prompt t)) < 2 ^ 53"
  then have "\<exists>k. new_line_count (length (splitlines (u_prompt t))) (shrink_speed t) = Inr k"
    using new_line_count_unit [of f "length (splitlines (u_prompt t))"] by auto
  then show "\<exists>t1. shrink w t = Inr t1"
    by (cases rule: shrink_cases [of w t]) auto
next
  assume a: "(\<forall>v\<in>set ws. \<not> is_visible v t)
    \<and> start_trunkate_iteration t \<le> shrink_calls t + int (length ws)
    \<and> is_visible w' t
    \<and> new_line_count (length (splitlines (u_prompt t))) (shrink_speed t) = Inr k"
  let ?t1 = "t\<lparr>shrink_calls := shrink_calls t + int (length ws)\<rparr>"
  have run: "shrink_run ws t = Inr ?t1"
    using a by (simp add: shrink_run_invisible)
  have "shrink w' ?t1 =
      Inr (?t1\<lparr>deleted_lines := deleted_lines ?t1 + (int (length (splitlines (u_prompt ?t1))) - k),
           u_prompt := join_nl (slice_to (splitlines (u_prompt ?t1)) k) @
             deleted_marker (deleted_lines ?t1 + (int (length (splitlines (u_prompt ?t1))) - k)),
           shrink_calls := shrink_calls ?t1 + 1\<rparr>)"
    using a by (intro shrink_truncates) simp_all
  then show "shrink_run (ws @ [w']) t =
          Inr (t\<lparr>deleted_lines := deleted_lines t + (int (length (splitlines (u_prompt t))) - k),
                 u_prompt := join_nl (slice_to (splitlines (u_prompt t)) k) @
                   deleted_marker
                     (deleted_lines t + (int (length (splitlines (u_prompt t))) - k)),
                 shrink_calls := shrink_calls t + int (length ws) + 1\<rparr>)"
    using run by (simp add: shrink_run_snoc err_bind_def)
qed

theorem shrink_counts_calls_witness:
  "shrink False flag_example = Inr (flag_example\<lparr>shrink_calls := 1\<rparr>)
   \<and> shrink_calls (flag_example\<lparr>shrink_calls := 1\<rparr>) = shrink_calls flag_example + 1
   \<and> \<not> is_visible False flag_example
   \<and> shrink_speed flag_example = Fin (5404319552844595 / 2 ^ 54)
   \<and> (0::rat) \<le> 5404319552844595 / 2 ^ 54
   \<and> (5404319552844595 / 2 ^ 54 :: rat) \<le> 1
   \<and> length (splitlines (u_prompt flag_example)) < 2 ^ 53
   \<and> set (replicate 10 False) = {False}
   \<and> start_trunkate_iteration flag_example
       \<le> shrink_calls flag_example + int (length (replicate 10 False))
   \<and> is_visible True flag_example
   \<and> new_line_count (length (splitlines (u_prompt flag_example))) (shrink_speed flag_example)
       = Inr 2
   \<and> shrink_run (replicate 10 False @ [True]) flag_example =
       Inr (flag_example\<lparr>deleted_lines := 1,
          u_prompt := ''\<newline>AXTree (you may only interact with elements in this tree):\<newline>... Deleted 1 lines to reduce prompt size.'',
          shrink_calls := 11\<rparr>)"
proof -
  note inst = shrink_counts_calls
    [where w = False and t = flag_example and t' = "flag_example\<lparr>shrink_calls := 1\<rparr>"
       and f = "5404319552844595 / 2 ^ 54" and ws = "replicate 10 False" and w' = True
       and k = 2]
  have b1: "\<not> is_visible False flag_example"
    by (rule flag_example_fields)
  from inst b1 have c1: "shrink False flag_example = Inr (flag_example\<lparr>shrink_calls := 1\<rparr>)"
    by (simp add: flag_example_fields)
  from inst c1 have c2: "shrink_calls (flag_example\<lparr>shrink_calls := 1\<rparr>)
      = shrink_calls flag_example + 1"
    by blast
  have b3: "shrink_speed flag_example = Fin (5404319552844595 / 2 ^ 54)"
    by (simp only: flag_example_fields default_shrink_speed_eq)
  have b4: "(0::rat) \<le> 5404319552844595 / 2 ^ 54"
    and b5: "(5404319552844595 / 2 ^ 54 :: rat) \<le> 1"
    by simp_all
  have b6: "length (splitlines (u_prompt flag_example)) < 2 ^ 53"
    by (simp add: flag_example_lines)
  have b7: "set (replicate 10 False) = {False}"
    by simp
  have b8: "start_trunkate_iteration flag_example
      \<le> shrink_calls flag_example + int (length (replicate 10 False))"
    by (simp add: flag_example_fields)
  have b9: "is_visible True flag_example"
    by (rule flag_example_fields)
  have "length (splitlines (u_prompt flag_example)) = 3"
    by (simp add: flag_example_lines)
  then have b10: "new_line_count (length (splitlines (u_prompt flag_example)))
      (shrink_speed flag_example) = Inr 2"
    by (simp only: flag_example_fields new_line_count_3_default)
  have all: "\<forall>v\<in>set (replicate 10 False). \<not> is_visible v flag_example"
    using b1 by simp
  from inst all b8 b9 b10 have "shrink_run (replicate 10 False @ [True]) flag_example =
      Inr (flag_example\<lparr>deleted_lines := deleted_lines flag_example
             + (int (length (splitlines (u_prompt flag_example))) - 2),
           u_prompt := join_nl (slice_to (splitlines (u_prompt flag_example)) 2) @
             deleted_marker (deleted_lines flag_example
               + (int (length (splitlines (u_prompt flag_example))) - 2)),
           shrink_calls := shrink_calls flag_example + int (length (replicate 10 False)) + 1\<rparr>)"
    by blast
  then have c4: "shrink_run (replicate 10 False @ [True]) flag_example =
       Inr (flag_example\<lparr>deleted_lines := 1,
          u_prompt := ''\<newline>AXTree (you may only interact with elements in this tree):\<newline>... Deleted 1 lines to reduce prompt size.'',
          shrink_calls := 11\<rparr>)"
    by (simp add: flag_example_lines flag_example_fields slice_to_def deleted_marker_def
        marker_line_def str_of_int_small)
  show ?thesis
    by (intro conjI c1 c2 b1 b3 b4 b5 b6 b7 b8 b9 b10 c4)
qed

section \<open>One truncating call\<close>

text \<open>
  C2. A visible truncating element called at or past its threshold, with a shrink fraction
  \<open>f\<close> between 0 and 1 and a text of \<open>N\<close> lines: one shrink call keeps exactly the first
  \<open>k\<close> lines, where \<open>k\<close> is \<open>int(N * (1 - f))\<close> as the program computes it (in binary64,
  truncated), and it is between 0 and \<open>N\<close>. The lines of the new text are these \<open>k\<close> lines
  (one empty line when \<open>k = 0\<close>) followed by the marker line, which reports the cumulative
  counter: the counter before the call plus \<open>N - k\<close>, so \<open>N - k\<close> on a first truncating
  call. \<open>N < 2 ^ 53\<close> says that the line count is a float exactly.
\<close>

theorem shrink_once_line_count:
  assumes "is_visible w t" and "start_trunkate_iteration t \<le> shrink_calls t"
    and "shrink_speed t = Fin f" and "0 \<le> f" and "f \<le> 1"
    and "length (splitlines (u_prompt t)) < 2 ^ 53"
  shows "\<exists>k t'.
      new_line_count (length (splitlines (u_prompt t))) (shrink_speed t) = Inr k
    \<and> 0 \<le> k \<and> k \<le> int (length (splitlines (u_prompt t)))
    \<and> shrink w t = Inr t'
    \<and> splitlines (u_prompt t') =
        (if k = 0 then [[]] else take (nat k) (splitlines (u_prompt t))) @
        [marker_line (deleted_lines t')]
    \<and> length (take (nat k) (splitlines (u_prompt t))) = nat k
    \<and> deleted_lines t' = deleted_lines t + (int (length (splitlines (u_prompt t))) - k)
    \<and> shrink_calls t' = shrink_calls t + 1"
proof -
  let ?ls = "splitlines (u_prompt t)"
  obtain k where k: "new_line_count (length ?ls) (shrink_speed t) = Inr k"
      "0 \<le> k" "k \<le> int (length ?ls)"
    using new_line_count_unit [OF assms(4,5,6)] assms(3) by auto
  let ?d = "deleted_lines t + (int (length ?ls) - k)"
  let ?t' = "t\<lparr>deleted_lines := ?d,
               u_prompt := join_nl (slice_to ?ls k) @ deleted_marker ?d,
               shrink_calls := shrink_calls t + 1\<rparr>"
  have sh: "shrink w t = Inr ?t'"
    by (rule shrink_truncates [OF assms(1,2) k(1)])
  have empty: "take (nat k) ?ls = [] \<longleftrightarrow> k = 0"
    using k(2,3) by (auto simp: take_eq_Nil)
  have lines: "splitlines (u_prompt ?t') =
      (if k = 0 then [[]] else take (nat k) ?ls) @ [marker_line (deleted_lines ?t')]"
    using truncated_lines [OF k(2), of "u_prompt t" ?d] empty by simp
  have len: "length (take (nat k) ?ls) = nat k"
    using k(3) by simp
  show ?thesis
    using k sh lines len by (intro exI [of _ k] exI [of _ ?t']) simp
qed

theorem shrink_once_line_count_witness:
  "is_visible () html_example
   \<and> start_trunkate_iteration html_example \<le> shrink_calls html_example
   \<and> shrink_speed html_example = Fin (5404319552844595 / 2 ^ 54)
   \<and> (0::rat) \<le> 5404319552844595 / 2 ^ 54
   \<and> (5404319552844595 / 2 ^ 54 :: rat) \<le> 1
   \<and> length (splitlines (u_prompt html_example)) < 2 ^ 53
   \<and> (\<exists>k t'.
        new_line_count (length (splitlines (u_prompt html_example)))
          (shrink_speed html_example) = Inr k
      \<and> 0 \<le> k \<and> k \<le> int (length (splitlines (u_prompt html_example)))
      \<and> shrink () html_example = Inr t'
      \<and> splitlines (u_prompt t') =
          (if k = 0 then [[]] else take (nat k) (splitlines (u_prompt html_example))) @
          [marker_line (deleted_lines t')]
      \<and> length (take (nat k) (splitlines (u_prompt html_example))) = nat k
      \<and> deleted_lines t' =
          deleted_lines html_example + (int (length (splitlines (u_prompt html_example))) - k)
      \<and> shrink_calls t' = shrink_calls html_example + 1)
   \<and> shrink () html_example =
       Inr (html_example\<lparr>deleted_lines := 2,
          u_prompt := ''\<newline>HTML:\<newline>a\<newline>... Deleted 2 lines to reduce prompt size.'',
          shrink_calls := 6\<rparr>)"
proof -
  have h1: "is_visible () html_example"
    by (rule html_example_fields)
  have h2: "start_trunkate_iteration html_example \<le> shrink_calls html_example"
    by (simp add: html_example_fields)
  have h3: "shrink_speed html_example = Fin (5404319552844595 / 2 ^ 54)"
    by (simp only: html_example_fields default_shrink_speed_eq)
  have h4: "(0::rat) \<le> 5404319552844595 / 2 ^ 54"
    and h5: "(5404319552844595 / 2 ^ 54 :: rat) \<le> 1"
    by simp_all
  have h6: "length (splitlines (u_prompt html_example)) < 2 ^ 53"
    by (simp add: html_example_lines)
  show ?thesis
    by (intro conjI h1 h2 h3 h4 h5 h6 shrink_once_line_count [OF h1 h2 h3 h4 h5 h6]
        html_example_shrink)
qed

section \<open>The empty text\<close>

text \<open>
  C4. A truncating element whose text is empty and whose \<open>1 - shrink_speed\<close> is a finite
  float: every shrink call returns, removes no line (the counter of deleted lines keeps
  its value) and counts the call. The text stays empty when the call is made invisible or
  before the threshold; a visible call at or past the threshold replaces it by a line
  break followed by the marker line.
\<close>

theorem shrink_empty_text:
  assumes "u_prompt t = []" and "one_minus (shrink_speed t) = Fin g"
  shows "\<exists>t'. shrink w t = Inr t'
    \<and> deleted_lines t' = deleted_lines t
    \<and> shrink_calls t' = shrink_calls t + 1
    \<and> u_prompt t' =
        (if is_visible w t \<and> start_trunkate_iteration t \<le> shrink_calls t
         then deleted_marker (deleted_lines t) else [])"
proof (cases "is_visible w t \<and> start_trunkate_iteration t \<le> shrink_calls t")
  case False
  have "shrink w t = Inr (t\<lparr>shrink_calls := shrink_calls t + 1\<rparr>)"
    by (rule shrink_noop [OF False])
  then show ?thesis
    using assms(1) False by auto
next
  case True
  have sl: "splitlines (u_prompt t) = []"
    using assms(1) by (simp add: splitlines_def)
  have "new_line_count (length (splitlines (u_prompt t))) (shrink_speed t) = Inr 0"
    using new_line_count_empty [OF assms(2)] sl by simp
  then show ?thesis
    using True sl by (simp add: shrink_truncates slice_to_def)
qed

theorem shrink_empty_text_witness:
  "u_prompt (empty_example\<lparr>shrink_calls := 10\<rparr>) = []
   \<and> one_minus (shrink_speed (empty_example\<lparr>shrink_calls := 10\<rparr>))
       = Fin (3152519739159347 / 2 ^ 52)
   \<and> (\<exists>t'. shrink () (empty_example\<lparr>shrink_calls := 10\<rparr>) = Inr t'
        \<and> deleted_lines t' = deleted_lines (empty_example\<lparr>shrink_calls := 10\<rparr>)
        \<and> shrink_calls t' = shrink_calls (empty_example\<lparr>shrink_calls := 10\<rparr>) + 1
        \<and> u_prompt t' =
            (if is_visible () (empty_example\<lparr>shrink_calls := 10\<rparr>)
                \<and> start_trunkate_iteration (empty_example\<lparr>shrink_calls := 10\<rparr>)
                    \<le> shrink_calls (empty_example\<lparr>shrink_calls := 10\<rparr>)
             then deleted_marker (deleted_lines (empty_example\<lparr>shrink_calls := 10\<rparr>))
             else []))"
proof -
  have h1: "u_prompt (empty_example\<lparr>shrink_calls := 10\<rparr>) = []"
    by (rule empty_example_fields)
  have h2: "one_minus (shrink_speed (empty_example\<lparr>shrink_calls := 10\<rparr>))
      = Fin (3152519739159347 / 2 ^ 52)"
    by (simp only: empty_example_fields one_minus_default)
  show ?thesis
    by (intro conjI h1 h2 shrink_empty_text [OF h1 h2])
qed

text \<open>
  The empty text does not stay empty: a new element with the default threshold is still
  empty after ten calls, and the eleventh call gives it a line break and the marker line.
\<close>

theorem shrink_empty_text_counterexample:
  "shrink_run (replicate 10 ()) empty_example = Inr (empty_example\<lparr>shrink_calls := 10\<rparr>)
   \<and> u_prompt (empty_example\<lparr>shrink_calls := 10\<rparr>) = []
   \<and> shrink () (empty_example\<lparr>shrink_calls := 10\<rparr>) =
       Inr (empty_example\<lparr>u_prompt := ''\<newline>... Deleted 0 lines to reduce prompt size.'',
          shrink_calls := 11\<rparr>)
   \<and> u_prompt (empty_example\<lparr>u_prompt := ''\<newline>... Deleted 0 lines to reduce prompt size.'',
          shrink_calls := 11\<rparr>) \<noteq> u_prompt (empty_example\<lparr>shrink_calls := 10\<rparr>)"
  by (intro conjI empty_example_run empty_example_fields(1) empty_example_shrink)
    (simp add: empty_example_fields)

section \<open>The line count over the calls\<close>

text \<open>
  C5. A truncating element whose text has at least two lines (fewer than \<open>2 ^ 53\<close>) and
  whose shrink fraction \<open>f\<close> is between \<open>2 powi - 53\<close> and 1, so that \<open>1 - f\<close> is below 1 as a
  float: after any run of shrink calls, whatever the visibility at each call, one more call
  returns and leaves a text with at most as many lines as before it, and at most as many
  as the element had at the start.
\<close>

theorem shrink_never_regrows:
  assumes "shrink_speed t = Fin f" "2 powi (- 53) \<le> f" "f \<le> 1"
    and "2 \<le> length (splitlines (u_prompt t))" "length (splitlines (u_prompt t)) < 2 ^ 53"
  shows "\<exists>t1 t2. shrink_run ws t = Inr t1 \<and> shrink w t1 = Inr t2
    \<and> length (splitlines (u_prompt t2)) \<le> length (splitlines (u_prompt t1))
    \<and> length (splitlines (u_prompt t1)) \<le> length (splitlines (u_prompt t))"
proof -
  obtain t1 where t1: "shrink_run ws t = Inr t1" "shrink_speed t1 = Fin f"
      "2 \<le> length (splitlines (u_prompt t1))"
      "length (splitlines (u_prompt t1)) \<le> length (splitlines (u_prompt t))"
    using shrink_run_lines [OF assms] by blast
  have "length (splitlines (u_prompt t1)) < 2 ^ 53"
    using t1(4) assms(5) by simp
  then obtain t2 where "shrink w t1 = Inr t2"
      "length (splitlines (u_prompt t2)) \<le> length (splitlines (u_prompt t1))"
    using shrink_step_lines [OF t1(2) assms(2,3) t1(3)] by blast
  then show ?thesis
    using t1 by blast
qed

theorem shrink_never_regrows_witness:
  "shrink_speed html_example = Fin (5404319552844595 / 2 ^ 54)
   \<and> (2::rat) powi (- 53) \<le> 5404319552844595 / 2 ^ 54
   \<and> (5404319552844595 / 2 ^ 54 :: rat) \<le> 1
   \<and> 2 \<le> length (splitlines (u_prompt html_example))
   \<and> length (splitlines (u_prompt html_example)) < 2 ^ 53
   \<and> (\<exists>t1 t2. shrink_run (replicate 3 ()) html_example = Inr t1 \<and> shrink () t1 = Inr t2
        \<and> length (splitlines (u_prompt t2)) \<le> length (splitlines (u_prompt t1))
        \<and> length (splitlines (u_prompt t1)) \<le> length (splitlines (u_prompt html_example)))"
proof -
  have h1: "shrink_speed html_example = Fin (5404319552844595 / 2 ^ 54)"
    by (simp only: html_example_fields default_shrink_speed_eq)
  have h2: "(2::rat) powi (- 53) \<le> 5404319552844595 / 2 ^ 54"
    and h3: "(5404319552844595 / 2 ^ 54 :: rat) \<le> 1"
    by simp_all
  have h4: "2 \<le> length (splitlines (u_prompt html_example))"
    and h5: "length (splitlines (u_prompt html_example)) < 2 ^ 53"
    by (simp_all add: html_example_lines)
  show ?thesis
    by (intro conjI h1 h2 h3 h4 h5 shrink_never_regrows [OF h1 h2 h3 h4 h5])
qed

text \<open>
  A text of one line grows: after ten calls the element still has its one line, and the
  eleventh call, the first at the threshold, leaves two lines (an empty line and the
  marker line).
\<close>

theorem shrink_never_regrows_counterexample:
  "shrink_run (replicate 10 ()) one_line_example = Inr (one_line_example\<lparr>shrink_calls := 10\<rparr>)
   \<and> length (splitlines (u_prompt (one_line_example\<lparr>shrink_calls := 10\<rparr>))) = 1
   \<and> shrink () (one_line_example\<lparr>shrink_calls := 10\<rparr>) =
       Inr (one_line_example\<lparr>deleted_lines := 1,
          u_prompt := ''\<newline>... Deleted 1 lines to reduce prompt size.'', shrink_calls := 11\<rparr>)
   \<and> length (splitlines (u_prompt (one_line_example\<lparr>deleted_lines := 1,
          u_prompt := ''\<newline>... Deleted 1 lines to reduce prompt size.'',
          shrink_calls := 11\<rparr>))) = 2"
  by (intro conjI one_line_example_run one_line_example_shrink)
    (simp_all add: one_line_example_def splitlines_abc marker_lines_example)

section \<open>The history block\<close>

lemma err_map_Inr:
  "\<forall>x\<in>set xs. f x = Inr (g x) \<Longrightarrow> err_map f xs = Inr (map g xs)"
  by (induction xs) (simp_all add: err_bind_def)

lemma history_step_at_ok:
  assumes "1 \<le> i" "i < length sts" "length sts \<le> length strs + 1"
  shows "history_step_at sts strs acts i = Inr (history_step_of sts strs acts i)"
  using assms by (auto simp: history_step_at_def history_step_of_def py_index_def err_bind_def)

lemma get_history_ok:
  assumes "length sts = length strs \<or> length sts = length strs + 1"
  shows "get_history obh sts strs acts =
    Inr (history_text (map (history_step_of sts strs acts) [1..<length sts]))"
proof -
  have "\<forall>i\<in>set [1..<length sts].
      history_step_at sts strs acts i = Inr (history_step_of sts strs acts i)"
    using assms by (auto intro!: history_step_at_ok)
  then have "err_map (history_step_at sts strs acts) [1..<length sts] =
      Inr (map (history_step_of sts strs acts) [1..<length sts])"
    by (rule err_map_Inr)
  then show ?thesis
    using assms by (auto simp add: get_history_def err_bind_def)
qed

lemma get_history_assert:
  assumes "\<not> (length sts = length strs \<or> length sts = length strs + 1)"
  shows "get_history obh sts strs acts = Inl AssertionError"
  using assms by (simp add: get_history_def)

lemma get_obs_text:
  "get_obs ob =
     ''\<newline># Observation of current step:\<newline>AXSTART\<newline>## AXTree (you may only interact with elements in this tree):\<newline>'' @
     axtree_txt ob @ ''\<newline>AXEND'' @
     (if last_action_error ob = [] then []
      else ''\<newline>## Error from previous action:\<newline>'' @ last_action_error ob @ ''\<newline>'') @
     ''\<newline>\<newline>''"
  by (simp add: get_obs_def Let_def prompt_def hide_def is_visible_def AXTree_init_def
      Error_init_def Trunkater_init_def PromptElement_init_def coord_note_def)

lemma length_slice_last: "length (slice_last n xs) = min n (length xs)"
  by (simp add: slice_last_def)

lemma encoding_example:
  "map_sum id obs
     (MyMainPrompt_init [obs_old, obs_old, obs_old, obs_old, obs_new]
        [''s0'', ''s1'', ''s2'', ''s3''] [''g0'', ''g1'', ''g2'', ''g3'']
        [''a0'', ''a1'', ''a2''] None None) =
   Inr (Some ''\<newline># Observation of current step:\<newline>AXSTART\<newline>## AXTree (you may only interact with elements in this tree):\<newline>[2] Click me\<newline>AXEND\<newline>## Error from previous action:\<newline>Timeout\<newline>\<newline>\<newline>'')"
  "map_sum id history
     (MyMainPrompt_init [obs_old, obs_old, obs_old, obs_old, obs_new]
        [''s0'', ''s1'', ''s2'', ''s3''] [''g0'', ''g1'', ''g2'', ''g3'']
        [''a0'', ''a1'', ''a2''] None None) =
   Inr ''\<newline># History of interaction with the task:\<newline>\<newline>## Step 0\<newline>\<newline>### State:\<newline>s1\<newline>\<newline>### Strategy:\<newline>g1\<newline>\<newline>### Action:\<newline>a0\<newline>\<newline>## Step 1\<newline>\<newline>### State:\<newline>s2\<newline>\<newline>### Strategy:\<newline>g2\<newline>\<newline>### Action:\<newline>a1\<newline>\<newline>''"
  by code_simp+

lemma strategy_example:
  "map_sum id obs
     (MyMainPrompt_init [obs_old, obs_new] [''s0'', ''s1''] [''g0''] [''a0''] None None) =
   Inr (Some ''\<newline># Observation of current step:\<newline>AXSTART\<newline>## AXTree (you may only interact with elements in this tree):\<newline>[2] Click me\<newline>AXEND\<newline>## Error from previous action:\<newline>Timeout\<newline>\<newline>\<newline>\<newline>## Current State:\<newline>s1\<newline>'')"
  "map_sum id history
     (MyMainPrompt_init [obs_old, obs_new] [''s0'', ''s1''] [''g0''] [''a0''] None None) =
   Inr ''\<newline># History of interaction with the task:\<newline>\<newline>## Step 0\<newline>\<newline>### State:\<newline>s0\<newline>\<newline>### Strategy:\<newline>g0\<newline>\<newline>### Action:\<newline>a0\<newline>\<newline>''"
  by code_simp+

lemma unmatched_example:
  "map_sum id obs
     (MyMainPrompt_init [] [''s0'', ''s1''] [''g0'', ''g1''] [''a0'', ''a1''] None None) = Inr None"
  by code_simp

lemma assertion_example:
  "MyMainPrompt_init [] [] [''plan''] [] None None = Inl AssertionError"
  by (simp add: MyMainPrompt_init_def get_history_def err_bind_def)

section \<open>Mode selection\<close>

text \<open>
  C1. With one observation more than states and as many strategies as states
  (\<open>O = S + 1\<close>, \<open>S = T\<close>, any number of actions) the constructor returns and takes the
  encoding branch. The current-step text is \<open>get_obs\<close> of the last observation: the fixed
  headings around the accessibility tree text of that observation, followed by its error
  banner when its last-action error is not empty; no state, strategy or action enters it.
  The history block is the one that \<open>get_history\<close> builds from the last three states, the
  last three strategies and the last three actions.
\<close>

theorem encoding_mode:
  assumes "length obh = length sts + 1" and "length sts = length strs"
  shows "\<exists>p. MyMainPrompt_init obh sts strs acts active space = Inr p
    \<and> obs p = Some (get_obs (last obh))
    \<and> get_obs (last obh) =
        ''\<newline># Observation of current step:\<newline>AXSTART\<newline>## AXTree (you may only interact with elements in this tree):\<newline>'' @
        axtree_txt (last obh) @ ''\<newline>AXEND'' @
        (if last_action_error (last obh) = [] then []
         else ''\<newline>## Error from previous action:\<newline>'' @
              last_action_error (last obh) @ ''\<newline>'') @
        ''\<newline>\<newline>''
    \<and> get_history obh (slice_last 3 sts) (slice_last 3 strs) (slice_last 3 acts)
        = Inr (history p)"
proof -
  have ne: "obh \<noteq> []"
    using assms(1) by auto
  obtain h0 where h0: "get_history obh sts strs acts = Inr h0"
    using get_history_ok [of sts strs obh acts] assms(2) by simp
  have "length (slice_last 3 sts) = length (slice_last 3 strs)"
    using assms(2) by (simp add: length_slice_last)
  then obtain h1 where h1:
      "get_history obh (slice_last 3 sts) (slice_last 3 strs) (slice_last 3 acts) = Inr h1"
    using get_history_ok [of "slice_last 3 sts" "slice_last 3 strs" obh "slice_last 3 acts"]
    by simp
  show ?thesis
    using assms ne h0 h1 get_obs_text [of "last obh"]
    by (simp add: MyMainPrompt_init_def err_bind_def py_last_def Let_def)
qed

theorem encoding_mode_witness:
  "length [obs_old, obs_old, obs_old, obs_old, obs_new] = length [''s0'', ''s1'', ''s2'', ''s3''] + 1
   \<and> length [''s0'', ''s1'', ''s2'', ''s3''] = length [''g0'', ''g1'', ''g2'', ''g3'']
   \<and> (\<exists>p. MyMainPrompt_init [obs_old, obs_old, obs_old, obs_old, obs_new]
          [''s0'', ''s1'', ''s2'', ''s3''] [''g0'', ''g1'', ''g2'', ''g3'']
          [''a0'', ''a1'', ''a2''] None None = Inr p
        \<and> obs p = Some (get_obs obs_new)
        \<and> get_history [obs_old, obs_old, obs_old, obs_old, obs_new]
            [''s1'', ''s2'', ''s3''] [''g1'', ''g2'', ''g3''] [''a0'', ''a1'', ''a2'']
            = Inr (history p))
   \<and> map_sum id obs
       (MyMainPrompt_init [obs_old, obs_old, obs_old, obs_old, obs_new]
          [''s0'', ''s1'', ''s2'', ''s3''] [''g0'', ''g1'', ''g2'', ''g3'']
          [''a0'', ''a1'', ''a2''] None None) =
     Inr (Some ''\<newline># Observation of current step:\<newline>AXSTART\<newline>## AXTree (you may only interact with elements in this tree):\<newline>[2] Click me\<newline>AXEND\<newline>## Error from previous action:\<newline>Timeout\<newline>\<newline>\<newline>'')
   \<and> map_sum id history
       (MyMainPrompt_init [obs_old, obs_old, obs_old, obs_old, obs_new]
          [''s0'', ''s1'', ''s2'', ''s3''] [''g0'', ''g1'', ''g2'', ''g3'']
          [''a0'', ''a1'', ''a2''] None None) =
     Inr ''\<newline># History of interaction with the task:\<newline>\<newline>## Step 0\<newline>\<newline>### State:\<newline>s1\<newline>\<newline>### Strategy:\<newline>g1\<newline>\<newline>### Action:\<newline>a0\<newline>\<newline>## Step 1\<newline>\<newline>### State:\<newline>s2\<newline>\<newline>### Strategy:\<newline>g2\<newline>\<newline>### Action:\<newline>a1\<newline>\<newline>''"
proof -
  have h1: "length [obs_old, obs_old, obs_old, obs_old, obs_new]
      = length [''s0'', ''s1'', ''s2'', ''s3''] + 1"
    and h2: "length [''s0'', ''s1'', ''s2'', ''s3''] = length [''g0'', ''g1'', ''g2'', ''g3'']"
    by simp_all
  from encoding_mode [OF h1 h2, of "[''a0'', ''a1'', ''a2'']" None None]
  obtain p where p: "MyMainPrompt_init [obs_old, obs_old, obs_old, obs_old, obs_new]
          [''s0'', ''s1'', ''s2'', ''s3''] [''g0'', ''g1'', ''g2'', ''g3'']
          [''a0'', ''a1'', ''a2''] None None = Inr p"
      "obs p = Some (get_obs (last [obs_old, obs_old, obs_old, obs_old, obs_new]))"
      "get_history [obs_old, obs_old, obs_old, obs_old, obs_new]
          (slice_last 3 [''s0'', ''s1'', ''s2'', ''s3''])
          (slice_last 3 [''g0'', ''g1'', ''g2'', ''g3''])
          (slice_last 3 [''a0'', ''a1'', ''a2'']) = Inr (history p)"
    by blast
  have "MyMainPrompt_init [obs_old, obs_old, obs_old, obs_old, obs_new]
          [''s0'', ''s1'', ''s2'', ''s3''] [''g0'', ''g1'', ''g2'', ''g3'']
          [''a0'', ''a1'', ''a2''] None None = Inr p
        \<and> obs p = Some (get_obs obs_new)
        \<and> get_history [obs_old, obs_old, obs_old, obs_old, obs_new]
            [''s1'', ''s2'', ''s3''] [''g1'', ''g2'', ''g3''] [''a0'', ''a1'', ''a2'']
            = Inr (history p)"
    using p by (simp add: slice_last_def)
  then have "\<exists>p. MyMainPrompt_init [obs_old, obs_old, obs_old, obs_old, obs_new]
          [''s0'', ''s1'', ''s2'', ''s3''] [''g0'', ''g1'', ''g2'', ''g3'']
          [''a0'', ''a1'', ''a2''] None None = Inr p
        \<and> obs p = Some (get_obs obs_new)
        \<and> get_history [obs_old, obs_old, obs_old, obs_old, obs_new]
            [''s1'', ''s2'', ''s3''] [''g1'', ''g2'', ''g3''] [''a0'', ''a1'', ''a2'']
            = Inr (history p)"
    by (rule exI)
  then show ?thesis
    by (intro conjI h1 h2 encoding_example)
qed

text \<open>
  C6. With as many observations as states, one state more than strategies and as many
  strategies as actions (\<open>O = S\<close>, \<open>S = T + 1\<close>, \<open>T = A\<close>) the constructor returns and takes
  the strategy branch. The current-step text is \<open>get_obs\<close> of the last observation followed
  by the heading of the current state and the last state; no strategy enters it. The
  history block is the one built from the whole sequences.
\<close>

theorem strategy_mode:
  assumes "length obh = length sts" and "length sts = length strs + 1"
    and "length strs = length acts"
  shows "\<exists>p. MyMainPrompt_init obh sts strs acts active space = Inr p
    \<and> obs p = Some (get_obs (last obh) @ ''\<newline>## Current State:\<newline>'' @ last sts @ ''\<newline>'')
    \<and> get_obs (last obh) =
        ''\<newline># Observation of current step:\<newline>AXSTART\<newline>## AXTree (you may only interact with elements in this tree):\<newline>'' @
        axtree_txt (last obh) @ ''\<newline>AXEND'' @
        (if last_action_error (last obh) = [] then []
         else ''\<newline>## Error from previous action:\<newline>'' @
              last_action_error (last obh) @ ''\<newline>'') @
        ''\<newline>\<newline>''
    \<and> get_history obh sts strs acts = Inr (history p)"
proof -
  have ne: "obh \<noteq> []" "sts \<noteq> []"
    using assms(1,2) by auto
  obtain h0 where h0: "get_history obh sts strs acts = Inr h0"
    using get_history_ok [of sts strs obh acts] assms(2) by simp
  show ?thesis
    using assms ne h0 get_obs_text [of "last obh"]
    by (simp add: MyMainPrompt_init_def err_bind_def py_last_def Let_def get_obs_state_def)
qed

theorem strategy_mode_witness:
  "length [obs_old, obs_new] = length [''s0'', ''s1'']
   \<and> length [''s0'', ''s1''] = length [''g0''] + 1
   \<and> length [''g0''] = length [''a0'']
   \<and> (\<exists>p. MyMainPrompt_init [obs_old, obs_new] [''s0'', ''s1''] [''g0''] [''a0''] None None = Inr p
        \<and> obs p = Some (get_obs obs_new @ ''\<newline>## Current State:\<newline>'' @ ''s1'' @ ''\<newline>'')
        \<and> get_history [obs_old, obs_new] [''s0'', ''s1''] [''g0''] [''a0''] = Inr (history p))
   \<and> map_sum id obs
       (MyMainPrompt_init [obs_old, obs_new] [''s0'', ''s1''] [''g0''] [''a0''] None None) =
     Inr (Some ''\<newline># Observation of current step:\<newline>AXSTART\<newline>## AXTree (you may only interact with elements in this tree):\<newline>[2] Click me\<newline>AXEND\<newline>## Error from previous action:\<newline>Timeout\<newline>\<newline>\<newline>\<newline>## Current State:\<newline>s1\<newline>'')
   \<and> map_sum id history
       (MyMainPrompt_init [obs_old, obs_new] [''s0'', ''s1''] [''g0''] [''a0''] None None) =
     Inr ''\<newline># History of interaction with the task:\<newline>\<newline>## Step 0\<newline>\<newline>### State:\<newline>s0\<newline>\<newline>### Strategy:\<newline>g0\<newline>\<newline>### Action:\<newline>a0\<newline>\<newline>''"
proof -
  have h1: "length [obs_old, obs_new] = length [''s0'', ''s1'']"
    and h2: "length [''s0'', ''s1''] = length [''g0''] + 1"
    and h3: "length [''g0''] = length [''a0'']"
    by simp_all
  from strategy_mode [OF h1 h2 h3, of None None]
  obtain p where p:
      "MyMainPrompt_init [obs_old, obs_new] [''s0'', ''s1''] [''g0''] [''a0''] None None = Inr p"
      "obs p = Some (get_obs (last [obs_old, obs_new]) @ ''\<newline>## Current State:\<newline>'' @
         last [''s0'', ''s1''] @ ''\<newline>'')"
      "get_history [obs_old, obs_new] [''s0'', ''s1''] [''g0''] [''a0''] = Inr (history p)"
    by blast
  have "MyMainPrompt_init [obs_old, obs_new] [''s0'', ''s1''] [''g0''] [''a0''] None None = Inr p
        \<and> obs p = Some (get_obs obs_new @ ''\<newline>## Current State:\<newline>'' @ ''s1'' @ ''\<newline>'')
        \<and> get_history [obs_old, obs_new] [''s0'', ''s1''] [''g0''] [''a0''] = Inr (history p)"
    using p by simp
  then have "\<exists>p. MyMainPrompt_init [obs_old, obs_new] [''s0'', ''s1''] [''g0''] [''a0''] None None = Inr p
        \<and> obs p = Some (get_obs obs_new @ ''\<newline>## Current State:\<newline>'' @ ''s1'' @ ''\<newline>'')
        \<and> get_history [obs_old, obs_new] [''s0'', ''s1''] [''g0''] [''a0''] = Inr (history p)"
    by (rule exI)
  then show ?thesis
    by (intro conjI h1 h2 h3 strategy_example)
qed

text \<open>
  C3. When the four lengths satisfy none of the five conditions, no current-step text is
  assigned (\<open>obs\<close> stays unset). The constructor returns when the number of states is the
  number of strategies or one more; otherwise the assertion of \<open>get_history\<close>, which the
  constructor calls first, fails and the constructor raises \<open>AssertionError\<close>.
\<close>

theorem unmatched_mode:
  assumes "True \<notin> set (mode_conditions (length obh) (length sts) (length strs) (length acts))"
  shows "(length sts = length strs \<or> length sts = length strs + 1 \<longrightarrow>
      (\<exists>p. MyMainPrompt_init obh sts strs acts active space = Inr p \<and> obs p = None
         \<and> get_history obh sts strs acts = Inr (history p)))
    \<and> (\<not> (length sts = length strs \<or> length sts = length strs + 1) \<longrightarrow>
      MyMainPrompt_init obh sts strs acts active space = Inl AssertionError)"
proof (intro conjI impI)
  assume a: "length sts = length strs \<or> length sts = length strs + 1"
  obtain h0 where h0: "get_history obh sts strs acts = Inr h0"
    using get_history_ok [OF a] by simp
  show "\<exists>p. MyMainPrompt_init obh sts strs acts active space = Inr p \<and> obs p = None
         \<and> get_history obh sts strs acts = Inr (history p)"
    using assms h0
    by (auto simp add: mode_conditions_def MyMainPrompt_init_def err_bind_def Let_def)
next
  assume "\<not> (length sts = length strs \<or> length sts = length strs + 1)"
  then show "MyMainPrompt_init obh sts strs acts active space = Inl AssertionError"
    by (simp add: MyMainPrompt_init_def get_history_assert err_bind_def)
qed

theorem unmatched_mode_witness:
  "True \<notin> set (mode_conditions (length ([] :: observation list)) (length [''s0'', ''s1''])
       (length [''g0'', ''g1'']) (length [''a0'', ''a1'']))
   \<and> length [''s0'', ''s1''] = length [''g0'', ''g1'']
   \<and> (\<exists>p. MyMainPrompt_init [] [''s0'', ''s1''] [''g0'', ''g1''] [''a0'', ''a1''] None None = Inr p
        \<and> obs p = None
        \<and> get_history [] [''s0'', ''s1''] [''g0'', ''g1''] [''a0'', ''a1''] = Inr (history p))
   \<and> True \<notin> set (mode_conditions (length ([] :: observation list))
       (length ([] :: string list)) (length [''plan'']) (length ([] :: string list)))
   \<and> length ([] :: string list) \<noteq> length [''plan'']
   \<and> length ([] :: string list) \<noteq> length [''plan''] + 1
   \<and> MyMainPrompt_init [] [] [''plan''] [] None None = Inl AssertionError"
proof -
  have h1: "True \<notin> set (mode_conditions (length ([] :: observation list))
      (length [''s0'', ''s1'']) (length [''g0'', ''g1'']) (length [''a0'', ''a1'']))"
    by (simp add: mode_conditions_def)
  have h2: "length [''s0'', ''s1''] = length [''g0'', ''g1'']"
    by simp
  have h3: "True \<notin> set (mode_conditions (length ([] :: observation list))
       (length ([] :: string list)) (length [''plan'']) (length ([] :: string list)))"
    by (simp add: mode_conditions_def)
  have h4: "length ([] :: string list) \<noteq> length [''plan'']"
    and h5: "length ([] :: string list) \<noteq> length [''plan''] + 1"
    by simp_all
  from unmatched_mode [OF h1, of None None] h2
  have c1: "\<exists>p. MyMainPrompt_init [] [''s0'', ''s1''] [''g0'', ''g1''] [''a0'', ''a1''] None None = Inr p
        \<and> obs p = None
        \<and> get_history [] [''s0'', ''s1''] [''g0'', ''g1''] [''a0'', ''a1''] = Inr (history p)"
    by blast
  from unmatched_mode [OF h3, of None None] h4 h5
  have c2: "MyMainPrompt_init [] [] [''plan''] [] None None = Inl AssertionError"
    by blast
  show ?thesis
    by (intro conjI h1 h2 c1 h3 h4 h5 c2)
qed

text \<open>
  No observation, no state, one strategy and no action: none of the five conditions holds,
  and the constructor raises \<open>AssertionError\<close>.
\<close>

theorem unmatched_mode_counterexample:
  "True \<notin> set (mode_conditions (length ([] :: observation list))
       (length ([] :: string list)) (length [''plan'']) (length ([] :: string list)))
   \<and> MyMainPrompt_init [] [] [''plan''] [] None None = Inl AssertionError"
  by (simp add: mode_conditions_def assertion_example)

section \<open>Extracting the action\<close>

text \<open>
  C9. When the tag parser returns a mapping with the action \<open>a\<close>: if \<open>to_python_code\<close>
  compiles \<open>a\<close>, the parser of the action space returns that mapping as it is (the action
  text unchanged, the compiled code dropped); if \<open>to_python_code\<close> raises with message \<open>e\<close>,
  it raises \<open>ParseError\<close> with \<open>e\<close> between the heading \<open>Error while parsing action\<close> and
  the hint to keep to the allowed actions. The parser of the effectuator answer does the
  same with the action space of the prompt and the tags \<open>action\<close> and \<open>explanation\<close>.
\<close>

theorem action_extraction:
  "(parse_tags reply [''action''] [] True = Inr d \<and> d ''action'' = Some a \<longrightarrow>
      (to_python_code a = Inr compiled \<longrightarrow>
         MyActionSpace_parse_answer parse_tags to_python_code reply = Inr d)
    \<and> (to_python_code a = Inl e \<longrightarrow>
         MyActionSpace_parse_answer parse_tags to_python_code reply =
           Inl (ParseError (action_error_message e))))
   \<and> (parse_tags reply [''action'', ''explanation''] [] True = Inr d' \<and> d' ''action'' = Some a
       \<and> action_space self = Some to_python_code \<longrightarrow>
      (to_python_code a = Inr compiled \<longrightarrow> parse_effectuator_answer parse_tags self reply = Inr d')
    \<and> (to_python_code a = Inl e \<longrightarrow>
         parse_effectuator_answer parse_tags self reply =
           Inl (ParseError (action_error_message e))))
   \<and> action_error_message e =
       ''Error while parsing action\<newline>: '' @ e @
       ''\<newline>Make sure your answer is restricted to the allowed actions.''"
  by (simp add: MyActionSpace_parse_answer_def parse_effectuator_answer_def err_bind_def
      action_error_message_def)

theorem action_extraction_witness:
  "example_tags ''<action>click('41')</action><explanation>open the menu</explanation>''
       [''action''] [] True =
     Inr ([''action'' \<mapsto> ''click('41')'', ''explanation'' \<mapsto> ''open the menu''] |` {''action''})
   \<and> ([''action'' \<mapsto> ''click('41')'', ''explanation'' \<mapsto> ''open the menu''] |` {''action''})
       ''action'' = Some ''click('41')''
   \<and> example_actions ''click('41')'' = Inr ''page.click('41')''
   \<and> MyActionSpace_parse_answer example_tags example_actions
       ''<action>click('41')</action><explanation>open the menu</explanation>'' =
     Inr ([''action'' \<mapsto> ''click('41')'', ''explanation'' \<mapsto> ''open the menu''] |` {''action''})
   \<and> example_tags ''<action>fly()</action><explanation>leave</explanation>''
       [''action'', ''explanation''] [] True =
     Inr ([''action'' \<mapsto> ''fly()'', ''explanation'' \<mapsto> ''leave'']
            |` {''action'', ''explanation''})
   \<and> ([''action'' \<mapsto> ''fly()'', ''explanation'' \<mapsto> ''leave''] |` {''action'', ''explanation''})
       ''action'' = Some ''fly()''
   \<and> action_space example_prompt = Some example_actions
   \<and> example_actions ''fly()'' = Inl ''Invalid action type''
   \<and> parse_effectuator_answer example_tags example_prompt
       ''<action>fly()</action><explanation>leave</explanation>'' =
     Inl (ParseError
       (''Error while parsing action\<newline>: '' @ ''Invalid action type'' @
        ''\<newline>Make sure your answer is restricted to the allowed actions.''))"
proof -
  let ?d = "[''action'' \<mapsto> ''click('41')'', ''explanation'' \<mapsto> ''open the menu''] |` {''action''}"
  let ?d' = "[''action'' \<mapsto> ''fly()'', ''explanation'' \<mapsto> ''leave'']
      |` {''action'', ''explanation''}"
  have a1: "example_tags ''<action>click('41')</action><explanation>open the menu</explanation>''
      [''action''] [] True = Inr ?d"
    by (simp add: example_tags_def)
  have a2: "?d ''action'' = Some ''click('41')''"
    by simp
  have a3: "example_actions ''click('41')'' = Inr ''page.click('41')''"
    by (simp add: example_actions_def)
  have b1: "example_tags ''<action>fly()</action><explanation>leave</explanation>''
      [''action'', ''explanation''] [] True = Inr ?d'"
    by (simp add: example_tags_def)
  have b2: "?d' ''action'' = Some ''fly()''"
    by simp
  have b3: "action_space example_prompt = Some example_actions"
    by (simp add: example_prompt_def)
  have b4: "example_actions ''fly()'' = Inl ''Invalid action type''"
    by (simp add: example_actions_def)
  from action_extraction
    [where parse_tags = example_tags and to_python_code = example_actions
       and reply = "''<action>click('41')</action><explanation>open the menu</explanation>''"
       and d = ?d and a = "''click('41')''" and compiled = "''page.click('41')''"]
    a1 a2 a3
  have c1: "MyActionSpace_parse_answer example_tags example_actions
       ''<action>click('41')</action><explanation>open the menu</explanation>'' = Inr ?d"
    by blast
  from action_extraction
    [where parse_tags = example_tags and to_python_code = example_actions
       and reply = "''<action>fly()</action><explanation>leave</explanation>''"
       and d' = ?d' and a = "''fly()''" and e = "''Invalid action type''"
       and self = example_prompt]
    b1 b2 b3 b4
  have c2: "parse_effectuator_answer example_tags example_prompt
       ''<action>fly()</action><explanation>leave</explanation>'' =
     Inl (ParseError
       (''Error while parsing action\<newline>: '' @ ''Invalid action type'' @
        ''\<newline>Make sure your answer is restricted to the allowed actions.''))"
    by metis
  show ?thesis
    by (intro conjI a1 a2 a3 c1 b1 b2 b3 b4 c2)
qed

end
